theory Spec2Isabelle
  imports Main
begin

section \<open>Data model of the indentation engine (src/rules/indent-helpers/index.ts)\<close>

text \<open>
  A position is a 1-based line and a 0-based column. A token carries its object identity
  (\<open>tid\<close>: the offset table and the ignore set of the source are keyed by object
  identity, which equality of the record stands for), its \<open>type\<close> tag and its location.
  Characters are code units; columns count them.
\<close>

record position =
  line :: nat
  column :: nat

record token =
  tid :: nat
  ttype :: string
  loc_start :: position
  loc_end :: position

text \<open>\<open>isCommentToken\<close> of eslint-utils: the type tag is Line, Block or Shebang.\<close>

definition isCommentToken :: "token \<Rightarrow> bool" where
  "isCommentToken t = (ttype t = ''Line'' \<or> ttype t = ''Block'' \<or> ttype t = ''Shebang'')"

text \<open>
  The value type of the \<open>offsets\<close> map: a tagged union of a relative entry (with its base
  token) and a baseline entry, each with the optional cached \<open>expectedIndent\<close>.
\<close>

datatype offset_info =
  Relative (baseToken: token) (offset: int) (expectedIndent: "int option")
| Baseline (offset: int) (expectedIndent: "int option")

type_synonym offsets = "token \<rightharpoonup> offset_info"

datatype indent_char = Space | Tab

fun char_of_indent :: "indent_char \<Rightarrow> char" where
  "char_of_indent Space = CHR '' ''"
| "char_of_indent Tab = CHR 0x09"

record options =
  indentChar :: indent_char
  indentSize :: int
  switchCase :: int
  ignoredNodes :: "string list"

text \<open>
  The first parameter of \<open>setOffset\<close>, \<open>copyOffset\<close> and \<open>setOffsetBaseLine\<close>:
  a token, null/undefined (\<open>None\<close>), or an array of such.
\<close>

datatype token_arg = One "token option" | Many "token option list"

datatype error = TypeError | RangeError

text \<open>
  What a call can do: not return (\<open>Diverges\<close>, the recursion of the resolver on a cyclic
  offset table), throw, or return a value.
\<close>

datatype 'a outcome = Diverges | Throws error | Returns 'a

fun obind :: "'a outcome \<Rightarrow> ('a \<Rightarrow> 'b outcome) \<Rightarrow> 'b outcome" where
  "obind Diverges f = Diverges"
| "obind (Throws e) f = Throws e"
| "obind (Returns x) f = f x"

section \<open>Offset graph operations\<close>

text \<open>\<open>setOffset\<close> on one element: null is skipped, a self-reference is skipped.\<close>

fun setOffset1 :: "token option \<Rightarrow> int \<Rightarrow> token \<Rightarrow> offsets \<Rightarrow> offsets" where
  "setOffset1 None off b offs = offs"
| "setOffset1 (Some t) off b offs =
     (if t = b then offs else offs(t \<mapsto> Relative b off None))"

fun setOffset :: "token_arg \<Rightarrow> int \<Rightarrow> token \<Rightarrow> offsets \<Rightarrow> offsets" where
  "setOffset (One t) off b offs = setOffset1 t off b offs"
| "setOffset (Many ts) off b offs = fold (\<lambda>t. setOffset1 t off b) ts offs"

fun setOffsetBaseLine1 :: "token option \<Rightarrow> int \<Rightarrow> offsets \<Rightarrow> offsets" where
  "setOffsetBaseLine1 None off offs = offs"
| "setOffsetBaseLine1 (Some t) off offs = offs(t \<mapsto> Baseline off None)"

fun setOffsetBaseLine :: "token_arg \<Rightarrow> int \<Rightarrow> offsets \<Rightarrow> offsets" where
  "setOffsetBaseLine (One t) off offs = setOffsetBaseLine1 t off offs"
| "setOffsetBaseLine (Many ts) off offs = fold (\<lambda>t. setOffsetBaseLine1 t off) ts offs"

fun copyOffset :: "token_arg \<Rightarrow> token \<Rightarrow> offsets \<Rightarrow> offsets" where
  "copyOffset (One None) srcToken offs = offs"
| "copyOffset token srcToken offs =
     (case offs srcToken of
        None \<Rightarrow> offs
      | Some (Relative b off e) \<Rightarrow> setOffset token off b offs
      | Some (Baseline off e) \<Rightarrow> setOffsetBaseLine token off offs)"

text \<open>\<open>saveExpectedIndent\<close>: \<open>offsetInfo.expectedIndent ??= expectedIndent\<close> per token.\<close>

fun set_expectedIndent :: "offset_info \<Rightarrow> int \<Rightarrow> offset_info" where
  "set_expectedIndent (Relative b off e) v = Relative b off (Some v)"
| "set_expectedIndent (Baseline off e) v = Baseline off (Some v)"

definition saveExpectedIndent1 :: "int \<Rightarrow> token \<Rightarrow> offsets \<Rightarrow> offsets" where
  "saveExpectedIndent1 v t offs =
     (case offs t of
        None \<Rightarrow> offs
      | Some offsetInfo \<Rightarrow>
          (case expectedIndent offsetInfo of
             None \<Rightarrow> offs(t \<mapsto> set_expectedIndent offsetInfo v)
           | Some old \<Rightarrow> offs))"

definition saveExpectedIndent :: "token list \<Rightarrow> int \<Rightarrow> offsets \<Rightarrow> offsets" where
  "saveExpectedIndent tokens v offs = fold (saveExpectedIndent1 v) tokens offs"

section \<open>Indent resolver\<close>

text \<open>
  \<open>getExpectedIndentFromToken\<close> reads the offset table and writes nothing. It recurses
  along base tokens with no cycle guard, so it is a partial function: \<open>None\<close> is a call
  that never returns, \<open>Some None\<close> is the result \<open>null\<close>.
\<close>

partial_function (option) getExpectedIndentFromToken ::
  "options \<Rightarrow> offsets \<Rightarrow> token \<Rightarrow> int option option" where
  "getExpectedIndentFromToken opts offs token =
     (case offs token of
        None \<Rightarrow> Some None
      | Some offsetInfo \<Rightarrow>
          (case expectedIndent offsetInfo of
             Some e \<Rightarrow> Some (Some e)
           | None \<Rightarrow>
               (case offsetInfo of
                  Baseline off e \<Rightarrow> Some (Some (off * indentSize opts))
                | Relative b off e \<Rightarrow>
                    Option.bind (getExpectedIndentFromToken opts offs b)
                      (\<lambda>baseIndent.
                         case baseIndent of
                           None \<Rightarrow> Some None
                         | Some bi \<Rightarrow> Some (Some (bi + off * indentSize opts))))))"

declare getExpectedIndentFromToken.simps [code]

text \<open>
  \<open>getExpectedIndentFromTokens\<close>: the tokens of a line in order; an ignored token ends
  the scan with \<open>null\<close>, the first token that resolves ends it with its value.
\<close>

fun getExpectedIndentFromTokens ::
  "options \<Rightarrow> offsets \<Rightarrow> token set \<Rightarrow> token list \<Rightarrow> int option option" where
  "getExpectedIndentFromTokens opts offs ign [] = Some None"
| "getExpectedIndentFromTokens opts offs ign (token # rest) =
     (if token \<in> ign then Some None
      else
        (case getExpectedIndentFromToken opts offs token of
           None \<Rightarrow> None
         | Some (Some e) \<Rightarrow> Some (Some e)
         | Some None \<Rightarrow> getExpectedIndentFromTokens opts offs ign rest))"

section \<open>Validator and reporter\<close>

text \<open>
  A syntax-tree node, as far as the engine looks at it: its identity and its \<open>type\<close>.
  The source code object of the host: the lines of the file, \<open>getTokens(node)\<close> with
  its \<open>includeComments\<close> flag, and \<open>getIndexFromLoc\<close>.
\<close>

record node =
  nid :: nat
  node_type :: string

record sourceCode =
  lines :: "string list"
  getTokens :: "node \<Rightarrow> bool \<Rightarrow> token list"
  getIndexFromLoc :: "position \<Rightarrow> nat"

datatype message_id = unexpectedIndentation | unexpectedChar

text \<open>
  The \<open>data\<close> of a report, with the numbers and characters as they are before
  \<open>String\<close> and \<open>JSON.stringify\<close> print them: for a wrong width the expected and actual
  indent, the expected and actual unit names and the two plural suffixes; for a wrong
  character the expected and the actual character.
\<close>

datatype report_data =
  IndentationData int nat string string string string
| CharData char char

record text_edit =
  edit_range :: "nat \<times> nat"
  edit_text :: string

text \<open>
  A report as handed to \<open>context.report\<close>. \<open>fix_result\<close> is what the \<open>fix\<close> callback
  yields when the host calls it: \<open>String.prototype.repeat\<close> throws a RangeError on a
  negative count.
\<close>

record report =
  rloc_start :: position
  rloc_end :: position
  messageId :: message_id
  data :: report_data
  fix_result :: "error + text_edit"

record engine_state =
  offsets :: offsets
  ignoreTokens :: "token set"
  reports :: "report list"

text \<open>\<open>String.prototype.trim\<close> on code units below 256.\<close>

definition isWhitespaceChar :: "char \<Rightarrow> bool" where
  "isWhitespaceChar c =
     (c = CHR 0x09 \<or> c = CHR 0x0A \<or> c = CHR 0x0B \<or> c = CHR 0x0C \<or> c = CHR 0x0D
      \<or> c = CHR '' '' \<or> c = CHR 0xA0)"

definition trim :: "string \<Rightarrow> string" where
  "trim s = rev (dropWhile isWhitespaceChar (rev (dropWhile isWhitespaceChar s)))"

text \<open>
  \<open>getIndentText\<close>: \<open>sourceCode.lines[line - 1].slice(0, column)\<close>; a line number
  outside the file reads \<open>undefined\<close> and the call of \<open>slice\<close> throws.
\<close>

definition getIndentText :: "sourceCode \<Rightarrow> position \<Rightarrow> string outcome" where
  "getIndentText sc p =
     (if line p = 0 \<or> length (lines sc) < line p then Throws TypeError
      else Returns (take (column p) (lines sc ! (line p - 1))))"

definition unitName :: "indent_char \<Rightarrow> string" where
  "unitName c = (if c = Tab then ''tab'' else ''space'')"

definition pluralSuffix :: "bool \<Rightarrow> string" where
  "pluralSuffix one = (if one then [] else ''s'')"

definition widthReport ::
  "options \<Rightarrow> sourceCode \<Rightarrow> nat \<Rightarrow> nat \<Rightarrow> int \<Rightarrow> nat list \<Rightarrow> report" where
  "widthReport opts sc ln actualIndent expected mismatchCharIndexes =
     \<lparr> rloc_start = \<lparr> line = ln, column = 0 \<rparr>,
       rloc_end = \<lparr> line = ln, column = actualIndent \<rparr>,
       messageId = unexpectedIndentation,
       data = IndentationData expected actualIndent
                (unitName (indentChar opts))
                (if mismatchCharIndexes \<noteq> [] then ''whitespace'' else unitName (indentChar opts))
                (pluralSuffix (expected = 1))
                (pluralSuffix (actualIndent = 1)),
       fix_result =
         (if expected < 0 then Inl RangeError
          else Inr \<lparr> edit_range =
                       (getIndexFromLoc sc \<lparr> line = ln, column = 0 \<rparr>,
                        getIndexFromLoc sc \<lparr> line = ln, column = actualIndent \<rparr>),
                     edit_text = replicate (nat expected) (char_of_indent (indentChar opts)) \<rparr>) \<rparr>"

definition charReport :: "options \<Rightarrow> sourceCode \<Rightarrow> nat \<Rightarrow> string \<Rightarrow> nat \<Rightarrow> report" where
  "charReport opts sc ln indentText i =
     \<lparr> rloc_start = \<lparr> line = ln, column = i \<rparr>,
       rloc_end = \<lparr> line = ln, column = i + 1 \<rparr>,
       messageId = unexpectedChar,
       data = CharData (char_of_indent (indentChar opts)) (indentText ! i),
       fix_result =
         Inr \<lparr> edit_range =
                 (getIndexFromLoc sc \<lparr> line = ln, column = i \<rparr>,
                  getIndexFromLoc sc \<lparr> line = ln, column = i + 1 \<rparr>),
               edit_text = [char_of_indent (indentChar opts)] \<rparr> \<rparr>"

text \<open>\<open>validateToken\<close>: the reports it hands to \<open>context.report\<close>, in order.\<close>

definition validateToken ::
  "options \<Rightarrow> sourceCode \<Rightarrow> token \<Rightarrow> int \<Rightarrow> report list outcome" where
  "validateToken opts sc token expected =
     obind (getIndentText sc (loc_start token)) (\<lambda>indentText.
       if trim indentText \<noteq> [] then Returns []
       else
         let ln = line (loc_start token);
             actualIndent = column (loc_start token);
             mismatchCharIndexes =
               filter (\<lambda>i. indentText ! i \<noteq> char_of_indent (indentChar opts))
                 [0..<length indentText]
         in if int actualIndent \<noteq> expected
            then Returns [widthReport opts sc ln actualIndent expected mismatchCharIndexes]
            else Returns (map (charReport opts sc ln indentText) mismatchCharIndexes))"

text \<open>\<open>prev && prev.loc.end.line < t.loc.start.line\<close>\<close>

fun startsNewLine :: "token option \<Rightarrow> token \<Rightarrow> bool" where
  "startsNewLine None t = False"
| "startsNewLine (Some prev) t = (line (loc_end prev) < line (loc_start t))"

text \<open>
  The validation half of \<open>processLine\<close>, after the expected indent is known: the first
  deferred comment, then the first token of the line.
\<close>

definition validateLine ::
  "options \<Rightarrow> sourceCode \<Rightarrow> token \<Rightarrow> token list \<Rightarrow> token option \<Rightarrow> int
     \<Rightarrow> report list outcome" where
  "validateLine opts sc firstToken prevComments prevToken expected =
     (case prevComments of
        [] \<Rightarrow>
          (if startsNewLine prevToken firstToken
           then validateToken opts sc firstToken expected else Returns [])
      | c # cs \<Rightarrow>
          obind (if startsNewLine prevToken c
                 then validateToken opts sc c expected else Returns [])
            (\<lambda>rs1.
               obind (if startsNewLine (Some (last (c # cs))) firstToken
                      then validateToken opts sc firstToken expected else Returns [])
                 (\<lambda>rs2. Returns (rs1 @ rs2))))"

definition processLine ::
  "options \<Rightarrow> sourceCode \<Rightarrow> token list \<Rightarrow> token list \<Rightarrow> token option \<Rightarrow> engine_state
     \<Rightarrow> engine_state outcome" where
  "processLine opts sc tokens prevComments prevToken st =
     (case tokens of
        [] \<Rightarrow> Throws TypeError
      | firstToken # rest \<Rightarrow>
          (case getExpectedIndentFromTokens opts (offsets st) (ignoreTokens st) tokens of
             None \<Rightarrow> Diverges
           | Some None \<Rightarrow>
               Returns (st\<lparr> offsets :=
                 saveExpectedIndent tokens (int (column (loc_start firstToken))) (offsets st) \<rparr>)
           | Some (Some e) \<Rightarrow>
               obind (validateLine opts sc firstToken prevComments prevToken e)
                 (\<lambda>rs. Returns (st\<lparr> offsets := saveExpectedIndent tokens e (offsets st),
                                     reports := reports st @ rs \<rparr>))))"

section \<open>Token stream walker\<close>

text \<open>
  The generator \<open>iterateLineTokens\<close> as the list of what it yields: pairs of
  \<open>prevComments\<close> and \<open>tokens\<close>. The loop state is the current line, the pending
  comments and the buffer.
\<close>

type_synonym line_group = "token list \<times> token list"

fun iterateLoop ::
  "nat \<Rightarrow> token list \<Rightarrow> token list \<Rightarrow> token list \<Rightarrow> line_group list" where
  "iterateLoop ln prevComments bufferTokens [] =
     (if bufferTokens \<noteq> [] \<and> \<not> list_all isCommentToken bufferTokens
      then [(prevComments, bufferTokens)] else [])"
| "iterateLoop ln prevComments bufferTokens (token # rest) =
     (let thisLine = line (loc_start token) in
      case bufferTokens of
        [] \<Rightarrow> iterateLoop thisLine prevComments [token] rest
      | b # bs \<Rightarrow>
          if ln = thisLine then iterateLoop thisLine prevComments (bufferTokens @ [token]) rest
          else if isCommentToken b \<and> list_all isCommentToken bufferTokens
          then iterateLoop thisLine (prevComments @ [b]) [token] rest
          else (prevComments, bufferTokens) # iterateLoop thisLine [] [token] rest)"

definition iterateLineTokens :: "token list \<Rightarrow> line_group list" where
  "iterateLineTokens toks = iterateLoop 0 [] [] toks"

text \<open>The loop of \<open>Program:exit\<close> over the line groups.\<close>

fun processLines ::
  "options \<Rightarrow> sourceCode \<Rightarrow> line_group list \<Rightarrow> token option \<Rightarrow> engine_state
     \<Rightarrow> engine_state outcome" where
  "processLines opts sc [] prevToken st = Returns st"
| "processLines opts sc ((prevComments, tokens) # groups) prevToken st =
     obind (processLine opts sc tokens prevComments prevToken st)
       (\<lambda>st'. processLines opts sc groups (Some (last tokens)) st')"

section \<open>Ignore registry and visitors\<close>

text \<open>\<open>ignore(node)\<close>: every token of \<open>sourceCode.getTokens(node)\<close> is added.\<close>

definition ignore :: "sourceCode \<Rightarrow> node \<Rightarrow> engine_state \<Rightarrow> engine_state" where
  "ignore sc nd st = st\<lparr> ignoreTokens := fold insert (getTokens sc nd False) (ignoreTokens st) \<rparr>"

text \<open>
  The per-grammar visitor tables (\<open>./es\<close> and \<open>./svelte\<close>) are parameters. Their
  handlers get the indent context, whose functions return nothing: all a handler can do
  to the engine is a sequence of calls of \<open>setOffset\<close>, \<open>copyOffset\<close>,
  \<open>setOffsetBaseLine\<close> and \<open>ignore\<close>, so a handler is given as the calls it makes for a
  node.
\<close>

datatype context_call =
  SetOffset token_arg int token
| CopyOffset token_arg token
| SetOffsetBaseLine token_arg int
| Ignore node

fun exec_call :: "sourceCode \<Rightarrow> context_call \<Rightarrow> engine_state \<Rightarrow> engine_state" where
  "exec_call sc (SetOffset tok off b) st = st\<lparr> offsets := setOffset tok off b (offsets st) \<rparr>"
| "exec_call sc (CopyOffset tok src) st = st\<lparr> offsets := copyOffset tok src (offsets st) \<rparr>"
| "exec_call sc (SetOffsetBaseLine tok off) st =
     st\<lparr> offsets := setOffsetBaseLine tok off (offsets st) \<rparr>"
| "exec_call sc (Ignore nd) st = ignore sc nd st"

definition exec_calls :: "sourceCode \<Rightarrow> context_call list \<Rightarrow> engine_state \<Rightarrow> engine_state" where
  "exec_calls sc cs st = fold (exec_call sc) cs st"

type_synonym nodes_visitor = "string \<rightharpoonup> (node \<Rightarrow> context_call list)"
type_synonym handler = "node \<Rightarrow> engine_state \<Rightarrow> engine_state outcome"
type_synonym rule_listener = "string \<rightharpoonup> handler"

text \<open>User options, default options and \<open>parseOptions\<close>. Numeric options are integers.\<close>

datatype indent_option = IndentNumber int | IndentTab

record user_options =
  u_indent :: "indent_option option"
  u_switchCase :: "int option"
  u_ignoredNodes :: "string list option"

record default_options =
  d_indentChar :: "indent_char option"
  d_indentSize :: "int option"
  d_switchCase :: "int option"
  d_ignoredNodes :: "string list option"

definition isSafeInteger :: "int \<Rightarrow> bool" where
  "isSafeInteger n = (\<bar>n\<bar> \<le> 2 ^ 53 - 1)"

definition orDefault :: "'a option \<Rightarrow> 'a \<Rightarrow> 'a" where
  "orDefault x d = (case x of None \<Rightarrow> d | Some v \<Rightarrow> v)"

definition parseOptions :: "user_options \<Rightarrow> default_options \<Rightarrow> options" where
  "parseOptions uo defaultOptions =
     (let ret = \<lparr> indentChar = orDefault (d_indentChar defaultOptions) Space,
                  indentSize = orDefault (d_indentSize defaultOptions) 2,
                  switchCase = orDefault (d_switchCase defaultOptions) 1,
                  ignoredNodes = orDefault (d_ignoredNodes defaultOptions) [] \<rparr>;
          ret1 = (case u_indent uo of
                    Some (IndentNumber n) \<Rightarrow>
                      if isSafeInteger n then ret\<lparr> indentSize := n \<rparr> else ret
                  | Some IndentTab \<Rightarrow> ret\<lparr> indentChar := Tab, indentSize := 1 \<rparr>
                  | None \<Rightarrow> ret);
          ret2 = (case u_switchCase uo of
                    Some n \<Rightarrow> if isSafeInteger n then ret1\<lparr> switchCase := n \<rparr> else ret1
                  | None \<Rightarrow> ret1)
      in case u_ignoredNodes uo of
           Some ns \<Rightarrow> ret2\<lparr> ignoredNodes := ns \<rparr>
         | None \<Rightarrow> ret2)"

text \<open>The rule context of the host: file name, \<open>options[0]\<close>, source code.\<close>

record ruleContext =
  getFilename :: string
  options0 :: "user_options option"
  getSourceCode :: sourceCode

definition endsWith :: "string \<Rightarrow> string \<Rightarrow> bool" where
  "endsWith s suffix =
     (length suffix \<le> length s \<and> drop (length s - length suffix) s = suffix)"

text \<open>
  \<open>compositingIgnoresVisitor\<close>: for each ignored selector, the handler under
  \<open>selector:exit\<close> is wrapped (run it, then \<open>ignore(node)\<close>) or, when there is none,
  set to \<open>ignore\<close>.
\<close>

fun compositingIgnoresVisitor ::
  "sourceCode \<Rightarrow> string list \<Rightarrow> rule_listener \<Rightarrow> rule_listener" where
  "compositingIgnoresVisitor sc [] visitor = visitor"
| "compositingIgnoresVisitor sc (ignoreSelector # rest) visitor =
     (let key = ignoreSelector @ '':exit'' in
      case visitor key of
        Some h \<Rightarrow>
          compositingIgnoresVisitor sc rest
            (visitor(key \<mapsto> (\<lambda>nd st. obind (h nd st) (\<lambda>st'. Returns (ignore sc nd st')))))
      | None \<Rightarrow>
          compositingIgnoresVisitor sc rest
            (visitor(key \<mapsto> (\<lambda>nd st. Returns (ignore sc nd st)))))"

text \<open>The handler under \<open>*:exit\<close>: tokens of nodes of unknown type are ignored.\<close>

definition starExit :: "sourceCode \<Rightarrow> string set \<Rightarrow> handler" where
  "starExit sc knownNodes nd st =
     (if node_type nd \<notin> knownNodes then Returns (ignore sc nd st) else Returns st)"

text \<open>
  The handler under \<open>Program:exit\<close>. \<open>isNotWhitespace\<close> (of \<open>./ast\<close>) is a parameter;
  the host applies it as the \<open>filter\<close> of \<open>getTokens\<close>.
\<close>

definition programExit :: "options \<Rightarrow> sourceCode \<Rightarrow> (token \<Rightarrow> bool) \<Rightarrow> handler" where
  "programExit opts sc isNotWhitespace nd st =
     processLines opts sc
       (iterateLineTokens (filter isNotWhitespace (getTokens sc nd True))) None st"

definition liftHandler :: "sourceCode \<Rightarrow> (node \<Rightarrow> context_call list) \<Rightarrow> handler" where
  "liftHandler sc h nd st = Returns (exec_calls sc (h nd) st)"

definition defineVisitor ::
  "ruleContext \<Rightarrow> default_options
     \<Rightarrow> (sourceCode \<Rightarrow> options \<Rightarrow> nodes_visitor) \<Rightarrow> (sourceCode \<Rightarrow> options \<Rightarrow> nodes_visitor)
     \<Rightarrow> (token \<Rightarrow> bool) \<Rightarrow> rule_listener" where
  "defineVisitor ctx defaultOptions ES_defineVisitor SV_defineVisitor isNotWhitespace =
     (if \<not> endsWith (getFilename ctx) ''.svelte'' then Map.empty
      else
        let opts = parseOptions
                     (orDefault (options0 ctx)
                        \<lparr> u_indent = None, u_switchCase = None, u_ignoredNodes = None \<rparr>)
                     defaultOptions;
            sc = getSourceCode ctx;
            nodesVisitor = ES_defineVisitor sc opts ++ SV_defineVisitor sc opts;
            knownNodes = dom nodesVisitor
        in compositingIgnoresVisitor sc (ignoredNodes opts)
             ((map_option (liftHandler sc) \<circ> nodesVisitor)
                (''*:exit'' \<mapsto> starExit sc knownNodes,
                 ''Program:exit'' \<mapsto> programExit opts sc isNotWhitespace)))"

text \<open>
  The host's traversal, as far as the engine sees it: a sequence of events, each the key
  of a matching handler and the node, run in order on the state of this file's analysis,
  which starts empty. A key without a handler runs nothing.
\<close>

definition initialState :: engine_state where
  "initialState = \<lparr> offsets = Map.empty, ignoreTokens = {}, reports = [] \<rparr>"

fun runEvents :: "rule_listener \<Rightarrow> (string \<times> node) list \<Rightarrow> engine_state \<Rightarrow> engine_state outcome" where
  "runEvents visitor [] st = Returns st"
| "runEvents visitor ((key, nd) # events) st =
     (case visitor key of
        None \<Rightarrow> runEvents visitor events st
      | Some h \<Rightarrow> obind (h nd st) (runEvents visitor events))"

section \<open>Specification predicates\<close>

text \<open>No relative entry of the offset table has its own key as base token.\<close>

definition noSelfReference :: "offsets \<Rightarrow> bool" where
  "noSelfReference offs = (\<forall>t b off e. offs t = Some (Relative b off e) \<longrightarrow> b \<noteq> t)"

text \<open>
  The chain of base tokens from a token ends: at a token without entry, at a cached
  entry, or at a baseline.
\<close>

inductive chainEnds :: "offsets \<Rightarrow> token \<Rightarrow> bool" for offs :: offsets where
  no_entry: "offs t = None \<Longrightarrow> chainEnds offs t"
| cached: "offs t = Some info \<Longrightarrow> expectedIndent info = Some e \<Longrightarrow> chainEnds offs t"
| baseline: "offs t = Some (Baseline m None) \<Longrightarrow> chainEnds offs t"
| relative: "offs t = Some (Relative b m None) \<Longrightarrow> chainEnds offs b \<Longrightarrow> chainEnds offs t"

text \<open>
  A handler keeps a property of the state: if it holds before a call, it holds when the
  call returns.
\<close>

definition preserved :: "(engine_state \<Rightarrow> bool) \<Rightarrow> handler \<Rightarrow> bool" where
  "preserved P h = (\<forall>nd st st'. P st \<longrightarrow> h nd st = Returns st' \<longrightarrow> P st')"

section \<open>Example inputs\<close>

text \<open>
  A three-line file, \<open>if (x) {\<close> / \<open>y = 1;\<close> / \<open>}\<close>, whose second line is not
  indented; six of its tokens (\<open>if\<close>, \<open>(\<close>, \<open>{\<close>, \<open>y\<close>, \<open>=\<close>, \<open>}\<close>); and an
  offset table for them as statement visitors fill it: the parenthesis one level under
  \<open>if\<close>, the braces at the level of \<open>if\<close>, the body one level under the opening
  brace. The token \<open>=\<close> has no entry.
\<close>

definition mkToken :: "nat \<Rightarrow> string \<Rightarrow> nat \<Rightarrow> nat \<Rightarrow> nat \<Rightarrow> token" where
  "mkToken i ty ln c ec =
     \<lparr> tid = i, ttype = ty, loc_start = \<lparr> line = ln, column = c \<rparr>,
       loc_end = \<lparr> line = ln, column = ec \<rparr> \<rparr>"

definition exOpts :: options where
  "exOpts = \<lparr> indentChar = Space, indentSize = 2, switchCase = 1, ignoredNodes = [] \<rparr>"

definition tIf :: token where "tIf = mkToken 1 ''Keyword'' 1 0 2"

definition tParen :: token where "tParen = mkToken 2 ''Punctuator'' 1 3 4"

definition tBrace :: token where "tBrace = mkToken 3 ''Punctuator'' 1 7 8"

definition tY :: token where "tY = mkToken 4 ''Identifier'' 2 0 1"

definition tEq :: token where "tEq = mkToken 5 ''Punctuator'' 2 2 3"

definition tClose :: token where "tClose = mkToken 6 ''Punctuator'' 3 0 1"

definition exOffsets :: offsets where
  "exOffsets = [tIf \<mapsto> Baseline 0 None, tParen \<mapsto> Relative tIf 1 None,
                tBrace \<mapsto> Relative tIf 0 None, tY \<mapsto> Relative tBrace 1 None,
                tClose \<mapsto> Relative tBrace 0 None]"

definition exLines :: "string list" where
  "exLines = [''if (x) {'', ''y = 1;'', ''}'']"

text \<open>The index of a position in a file whose lines end with one line feed.\<close>

definition exIndexFromLoc :: "string list \<Rightarrow> position \<Rightarrow> nat" where
  "exIndexFromLoc ls p = sum_list (map (\<lambda>l. length l + 1) (take (line p - 1) ls)) + column p"

definition exProgram :: node where "exProgram = \<lparr> nid = 0, node_type = ''Program'' \<rparr>"

text \<open>A node of a type that no visitor table knows, spanning the tokens \<open>y\<close> and \<open>=\<close>.\<close>

definition exMystery :: node where "exMystery = \<lparr> nid = 1, node_type = ''Mystery'' \<rparr>"

definition exSourceCode :: sourceCode where
  "exSourceCode =
     \<lparr> lines = exLines,
       getTokens = (\<lambda>nd includeComments.
          if node_type nd = ''Program'' then [tIf, tParen, tBrace, tY, tEq, tClose]
          else if node_type nd = ''Mystery'' then [tY, tEq] else []),
       getIndexFromLoc = exIndexFromLoc exLines \<rparr>"

definition exState :: engine_state where
  "exState = \<lparr> offsets = exOffsets, ignoreTokens = {}, reports = [] \<rparr>"

text \<open>
  A file whose second line is indented by a tab and a space, and the token after them.
\<close>

definition tTabbed :: token where "tTabbed = mkToken 7 ''Identifier'' 2 2 3"

definition exTabbed :: sourceCode where
  "exTabbed =
     \<lparr> lines = [''{'', [CHR 0x09, CHR '' '', CHR ''y''], ''}''],
       getTokens = (\<lambda>nd includeComments. []),
       getIndexFromLoc = exIndexFromLoc [''{'', [CHR 0x09, CHR '' '', CHR ''y''], ''}''] \<rparr>"

text \<open>The example state with the token \<open>=\<close> ignored.\<close>

definition exIgnoredEq :: engine_state where
  "exIgnoredEq = \<lparr> offsets = exOffsets, ignoreTokens = {tEq}, reports = [] \<rparr>"

text \<open>The same, with no entry for \<open>y\<close>.\<close>

definition exIgnoredLine :: engine_state where
  "exIgnoredLine = \<lparr> offsets = exOffsets(tY := None), ignoreTokens = {tEq}, reports = [] \<rparr>"



text \<open>
  A five-line file, \<open>{\<close> / \<open>/* a */ /* b */\<close> / \<open>// c\<close> / \<open>x\<close> / \<open>}\<close>, none of its
  lines indented: two comment-only lines before the line of \<open>x\<close>, which belongs one
  level under the brace.
\<close>

definition cOpen :: token where "cOpen = mkToken 11 ''Punctuator'' 1 0 1"

definition cmtA :: token where "cmtA = mkToken 12 ''Block'' 2 0 7"

definition cmtB :: token where "cmtB = mkToken 13 ''Block'' 2 8 15"

definition cmtC :: token where "cmtC = mkToken 14 ''Line'' 3 0 4"

definition cX :: token where "cX = mkToken 15 ''Identifier'' 4 0 1"

definition cClose :: token where "cClose = mkToken 16 ''Punctuator'' 5 0 1"



definition exCommentedOffsets :: offsets where
  "exCommentedOffsets = [cOpen \<mapsto> Baseline 0 None, cX \<mapsto> Relative cOpen 1 None,
                         cClose \<mapsto> Relative cOpen 0 None]"


text \<open>A filter that keeps every token that is not markup text.\<close>

definition exIsNotWhitespace :: "token \<Rightarrow> bool" where
  "exIsNotWhitespace t = (ttype t \<noteq> ''HTMLText'')"


text \<open>
  Rule contexts for a Svelte file and for a TypeScript file with the example source, and
  visitor tables: one handler for \<open>IfStatement\<close> in the first table, none in the second.
\<close>

definition exContext :: ruleContext where
  "exContext = \<lparr> getFilename = ''src/App.svelte'', options0 = None,
                  getSourceCode = exSourceCode \<rparr>"

definition exOtherContext :: ruleContext where
  "exOtherContext = \<lparr> getFilename = ''src/index.ts'', options0 = None,
                       getSourceCode = exSourceCode \<rparr>"

definition exDefaults :: default_options where
  "exDefaults = \<lparr> d_indentChar = None, d_indentSize = None, d_switchCase = None,
                   d_ignoredNodes = None \<rparr>"

definition exES :: "sourceCode \<Rightarrow> options \<Rightarrow> nodes_visitor" where
  "exES sc opts = [''IfStatement'' \<mapsto> (\<lambda>nd. [SetOffsetBaseLine (One (Some tIf)) 0,
                                              SetOffset (One (Some tParen)) 1 tIf,
                                              SetOffset (One (Some tBrace)) 0 tIf,
                                              SetOffset (One (Some tY)) 1 tBrace,
                                              SetOffset (One (Some tClose)) 0 tBrace])]"

definition exSV :: "sourceCode \<Rightarrow> options \<Rightarrow> nodes_visitor" where
  "exSV sc opts = Map.empty"

definition exIf :: node where "exIf = \<lparr> nid = 2, node_type = ''IfStatement'' \<rparr>"

text \<open>
  The example table after the analysis: every entry cached, the entry of \<open>y\<close> with
  the value given.
\<close>

definition exCachedOffsets :: "int \<Rightarrow> offsets" where
  "exCachedOffsets v = exOffsets(tIf \<mapsto> Baseline 0 (Some 0), tParen \<mapsto> Relative tIf 1 (Some 0),
                         tBrace \<mapsto> Relative tIf 0 (Some 0), tY \<mapsto> Relative tBrace 1 (Some v),
                         tClose \<mapsto> Relative tBrace 0 (Some 0))"

text \<open>The example table after \<open>processLine\<close> on the first line: its three entries cached.\<close>

definition exLineCached :: offsets where
  "exLineCached = exOffsets(tIf \<mapsto> Baseline 0 (Some 0), tParen \<mapsto> Relative tIf 1 (Some 0),
                            tBrace \<mapsto> Relative tIf 0 (Some 0))"

section \<open>Lemmas on the resolver and the offset table\<close>

lemma resolver_no_entry:
  "offs t = None \<Longrightarrow> getExpectedIndentFromToken opts offs t = Some None"
  by (subst getExpectedIndentFromToken.simps) simp

lemma resolver_cached:
  "offs t = Some info \<Longrightarrow> expectedIndent info = Some e \<Longrightarrow>
   getExpectedIndentFromToken opts offs t = Some (Some e)"
  by (subst getExpectedIndentFromToken.simps) simp

lemma resolver_baseline:
  "offs t = Some (Baseline m None) \<Longrightarrow>
   getExpectedIndentFromToken opts offs t = Some (Some (m * indentSize opts))"
  by (subst getExpectedIndentFromToken.simps) simp

lemma resolver_relative:
  "offs t = Some (Relative b m None) \<Longrightarrow>
   getExpectedIndentFromToken opts offs t =
     (case getExpectedIndentFromToken opts offs b of
        None \<Rightarrow> None
      | Some None \<Rightarrow> Some None
      | Some (Some bi) \<Rightarrow> Some (Some (bi + m * indentSize opts)))"
  by (subst getExpectedIndentFromToken.simps) (simp split: option.splits)

lemma save1_other: "u \<noteq> t \<Longrightarrow> saveExpectedIndent1 v t offs u = offs u"
  by (simp add: saveExpectedIndent1_def split: option.splits)

lemma save1_same:
  "saveExpectedIndent1 v t offs t =
     (case offs t of None \<Rightarrow> None
      | Some info \<Rightarrow> (case expectedIndent info of None \<Rightarrow> Some (set_expectedIndent info v) | Some old \<Rightarrow> Some info))"
  by (simp add: saveExpectedIndent1_def split: option.splits)

lemma expectedIndent_set [simp]: "expectedIndent (set_expectedIndent info v) = Some v"
  by (cases info) simp_all

lemma save_notin: "t \<notin> set toks \<Longrightarrow> saveExpectedIndent toks v offs t = offs t"
  unfolding saveExpectedIndent_def
  by (induction toks arbitrary: offs) (auto simp: save1_other)

lemma save_none: "offs t = None \<Longrightarrow> saveExpectedIndent toks v offs t = None"
  unfolding saveExpectedIndent_def
proof (induction toks arbitrary: offs)
  case Nil then show ?case by simp
next
  case (Cons a toks)
  have "saveExpectedIndent1 v a offs t = None"
    using Cons.prems by (cases "a = t") (simp_all add: save1_same save1_other)
  then show ?case using Cons.IH by simp
qed

lemma save_cached:
  "offs t = Some info \<Longrightarrow> expectedIndent info = Some e \<Longrightarrow>
   saveExpectedIndent toks v offs t = Some info"
  unfolding saveExpectedIndent_def
proof (induction toks arbitrary: offs)
  case Nil then show ?case by simp
next
  case (Cons a toks)
  have "saveExpectedIndent1 v a offs t = Some info"
    using Cons.prems by (cases "a = t") (simp_all add: save1_same save1_other)
  then show ?case using Cons.IH Cons.prems by simp
qed

lemma save_fresh:
  "t \<in> set toks \<Longrightarrow> offs t = Some info \<Longrightarrow> expectedIndent info = None \<Longrightarrow>
   saveExpectedIndent toks v offs t = Some (set_expectedIndent info v)"
proof (induction toks arbitrary: offs)
  case Nil then show ?case by simp
next
  case (Cons a toks)
  show ?case
  proof (cases "a = t")
    case True
    have s: "saveExpectedIndent1 v a offs t = Some (set_expectedIndent info v)"
      using True Cons.prems by (simp add: save1_same)
    have "saveExpectedIndent toks v (saveExpectedIndent1 v a offs) t = Some (set_expectedIndent info v)"
      by (rule save_cached [where offs = "saveExpectedIndent1 v a offs" and e = v, OF s]) simp
    then show ?thesis by (simp add: saveExpectedIndent_def)
  next
    case False
    then have "t \<in> set toks" using Cons.prems by auto
    moreover have "saveExpectedIndent1 v a offs t = Some info"
      using False Cons.prems by (simp add: save1_other)
    ultimately have "saveExpectedIndent toks v (saveExpectedIndent1 v a offs) t = Some (set_expectedIndent info v)"
      using Cons.IH Cons.prems by blast
    then show ?thesis by (simp add: saveExpectedIndent_def)
  qed
qed

lemma nsr_setOffset1: "noSelfReference offs \<Longrightarrow> noSelfReference (setOffset1 t off b offs)"
  by (cases t) (auto simp: noSelfReference_def)

lemma nsr_setOffset: "noSelfReference offs \<Longrightarrow> noSelfReference (setOffset tok off b offs)"
proof (cases tok)
  case (One t) then show "noSelfReference offs \<Longrightarrow> ?thesis" by (simp add: nsr_setOffset1)
next
  case (Many ts)
  have "noSelfReference offs \<Longrightarrow> noSelfReference (fold (\<lambda>t. setOffset1 t off b) ts offs)"
    by (induction ts arbitrary: offs) (simp_all add: nsr_setOffset1)
  then show "noSelfReference offs \<Longrightarrow> ?thesis" using Many by simp
qed

lemma nsr_setOffsetBaseLine1: "noSelfReference offs \<Longrightarrow> noSelfReference (setOffsetBaseLine1 t off offs)"
  by (cases t) (auto simp: noSelfReference_def)

lemma nsr_setOffsetBaseLine: "noSelfReference offs \<Longrightarrow> noSelfReference (setOffsetBaseLine tok off offs)"
proof (cases tok)
  case (One t) then show "noSelfReference offs \<Longrightarrow> ?thesis" by (simp add: nsr_setOffsetBaseLine1)
next
  case (Many ts)
  have "noSelfReference offs \<Longrightarrow> noSelfReference (fold (\<lambda>t. setOffsetBaseLine1 t off) ts offs)"
    by (induction ts arbitrary: offs) (simp_all add: nsr_setOffsetBaseLine1)
  then show "noSelfReference offs \<Longrightarrow> ?thesis" using Many by simp
qed

lemma copyOffset_eq:
  "copyOffset tok src offs =
     (if tok = One None then offs
      else case offs src of
        None \<Rightarrow> offs
      | Some (Relative b off e) \<Rightarrow> setOffset tok off b offs
      | Some (Baseline off e) \<Rightarrow> setOffsetBaseLine tok off offs)"
  by (cases "(tok, src, offs)" rule: copyOffset.cases) auto

lemma nsr_copyOffset: "noSelfReference offs \<Longrightarrow> noSelfReference (copyOffset tok src offs)"
  by (simp add: copyOffset_eq nsr_setOffset nsr_setOffsetBaseLine split: option.splits offset_info.splits)

lemma nsr_save1: "noSelfReference offs \<Longrightarrow> noSelfReference (saveExpectedIndent1 v t offs)"
proof -
  assume inv: "noSelfReference offs"
  show ?thesis
    unfolding noSelfReference_def
  proof (intro allI impI)
    fix u b off e
    assume h: "saveExpectedIndent1 v t offs u = Some (Relative b off e)"
    show "b \<noteq> u"
    proof (cases "u = t")
      case False
      then show ?thesis using h inv by (simp add: save1_other noSelfReference_def)
    next
      case True
      show ?thesis
      proof (cases "offs t")
        case None
        then show ?thesis using h True by (simp add: save1_same)
      next
        case (Some info)
        then show ?thesis using h True inv
          by (cases info) (auto simp: save1_same noSelfReference_def split: option.splits)
      qed
    qed
  qed
qed

lemma nsr_save: "noSelfReference offs \<Longrightarrow> noSelfReference (saveExpectedIndent toks v offs)"
  unfolding saveExpectedIndent_def
  by (induction toks arbitrary: offs) (simp_all add: nsr_save1)

lemma resolver_returns:
  "chainEnds offs t \<Longrightarrow> \<exists>r. getExpectedIndentFromToken opts offs t = Some r"
proof (induction rule: chainEnds.induct)
  case (no_entry t) then show ?case by (simp add: resolver_no_entry)
next
  case (cached t info e) then show ?case by (simp add: resolver_cached)
next
  case (baseline t m) then show ?case by (simp add: resolver_baseline)
next
  case (relative t b m)
  then show ?case by (auto simp: resolver_relative split: option.splits)
qed

section \<open>Lemmas on the validator\<close>

lemma trim_empty_iff: "trim s = [] \<longleftrightarrow> list_all isWhitespaceChar s"
proof -
  have "trim s = [] \<longleftrightarrow> (\<forall>x\<in>set (dropWhile isWhitespaceChar s). isWhitespaceChar x)"
    by (simp add: trim_def dropWhile_eq_Nil_conv)
  also have "\<dots> \<longleftrightarrow> dropWhile isWhitespaceChar s = []"
  proof
    assume a: "\<forall>x\<in>set (dropWhile isWhitespaceChar s). isWhitespaceChar x"
    show "dropWhile isWhitespaceChar s = []"
    proof (rule ccontr)
      assume n: "dropWhile isWhitespaceChar s \<noteq> []"
      then have "\<not> isWhitespaceChar (hd (dropWhile isWhitespaceChar s))"
        by (rule hd_dropWhile)
      moreover have "hd (dropWhile isWhitespaceChar s) \<in> set (dropWhile isWhitespaceChar s)"
        using n by simp
      ultimately show False using a by blast
    qed
  next
    assume "dropWhile isWhitespaceChar s = []"
    then show "\<forall>x\<in>set (dropWhile isWhitespaceChar s). isWhitespaceChar x"
      by (simp del: dropWhile_eq_Nil_conv)
  qed
  also have "\<dots> \<longleftrightarrow> list_all isWhitespaceChar s"
    by (simp add: dropWhile_eq_Nil_conv list_all_iff)
  finally show ?thesis .
qed

lemma validateToken_cases:
  "getIndentText sc (loc_start token) = Returns indentText \<Longrightarrow>
   validateToken opts sc token expected =
     (if trim indentText \<noteq> [] then Returns []
      else if int (column (loc_start token)) \<noteq> expected
      then Returns [widthReport opts sc (line (loc_start token)) (column (loc_start token)) expected
             (filter (\<lambda>i. indentText ! i \<noteq> char_of_indent (indentChar opts)) [0..<length indentText])]
      else Returns (map (charReport opts sc (line (loc_start token)) indentText)
             (filter (\<lambda>i. indentText ! i \<noteq> char_of_indent (indentChar opts)) [0..<length indentText])))"
  by (simp add: validateToken_def Let_def)

lemma validateToken_kinds:
  "validateToken opts sc token expected = Returns rs \<Longrightarrow>
   (\<forall>r\<in>set rs. messageId r = unexpectedIndentation \<and> int (column (loc_start token)) \<noteq> expected)
   \<or> (\<forall>r\<in>set rs. messageId r = unexpectedChar \<and> int (column (loc_start token)) = expected)"
proof (cases "getIndentText sc (loc_start token)")
  case Diverges then show "validateToken opts sc token expected = Returns rs \<Longrightarrow> ?thesis"
    by (simp add: validateToken_def)
next
  case (Throws e) then show "validateToken opts sc token expected = Returns rs \<Longrightarrow> ?thesis"
    by (simp add: validateToken_def)
next
  case (Returns indentText)
  assume "validateToken opts sc token expected = Returns rs"
  then show ?thesis
    unfolding validateToken_cases [OF Returns]
    by (auto simp: widthReport_def charReport_def split: if_splits)
qed

section \<open>Lemmas on the example inputs\<close>

lemma tok_distinct [simp]:
  "tIf \<noteq> tParen" "tIf \<noteq> tBrace" "tIf \<noteq> tY" "tIf \<noteq> tEq" "tIf \<noteq> tClose"
  "tParen \<noteq> tIf" "tParen \<noteq> tBrace" "tParen \<noteq> tY" "tParen \<noteq> tEq" "tParen \<noteq> tClose"
  "tBrace \<noteq> tIf" "tBrace \<noteq> tParen" "tBrace \<noteq> tY" "tBrace \<noteq> tEq" "tBrace \<noteq> tClose"
  "tY \<noteq> tIf" "tY \<noteq> tParen" "tY \<noteq> tBrace" "tY \<noteq> tEq" "tY \<noteq> tClose"
  "tEq \<noteq> tIf" "tEq \<noteq> tParen" "tEq \<noteq> tBrace" "tEq \<noteq> tY" "tEq \<noteq> tClose"
  "tClose \<noteq> tIf" "tClose \<noteq> tParen" "tClose \<noteq> tBrace" "tClose \<noteq> tY" "tClose \<noteq> tEq"
  by (simp_all add: tIf_def tParen_def tBrace_def tY_def tEq_def tClose_def mkToken_def)

lemma exOffsets_simps [simp]:
  "exOffsets tIf = Some (Baseline 0 None)"
  "exOffsets tParen = Some (Relative tIf 1 None)"
  "exOffsets tBrace = Some (Relative tIf 0 None)"
  "exOffsets tY = Some (Relative tBrace 1 None)"
  "exOffsets tEq = None"
  "exOffsets tClose = Some (Relative tBrace 0 None)"
  by (simp_all add: exOffsets_def)

lemma ex_locs [simp]:
  "loc_start tIf = \<lparr> line = 1, column = 0 \<rparr>" "loc_end tIf = \<lparr> line = 1, column = 2 \<rparr>"
  "loc_start tParen = \<lparr> line = 1, column = 3 \<rparr>" "loc_end tParen = \<lparr> line = 1, column = 4 \<rparr>"
  "loc_start tBrace = \<lparr> line = 1, column = 7 \<rparr>" "loc_end tBrace = \<lparr> line = 1, column = 8 \<rparr>"
  "loc_start tY = \<lparr> line = 2, column = 0 \<rparr>" "loc_end tY = \<lparr> line = 2, column = 1 \<rparr>"
  "loc_start tEq = \<lparr> line = 2, column = 2 \<rparr>" "loc_end tEq = \<lparr> line = 2, column = 3 \<rparr>"
  "loc_start tClose = \<lparr> line = 3, column = 0 \<rparr>" "loc_end tClose = \<lparr> line = 3, column = 1 \<rparr>"
  "loc_start tTabbed = \<lparr> line = 2, column = 2 \<rparr>"
  by (simp_all add: tIf_def tParen_def tBrace_def tY_def tEq_def tClose_def tTabbed_def
      mkToken_def)

lemma ex_resolved:
  "getExpectedIndentFromToken exOpts exOffsets tIf = Some (Some 0)"
  "getExpectedIndentFromToken exOpts exOffsets tParen = Some (Some 2)"
  "getExpectedIndentFromToken exOpts exOffsets tBrace = Some (Some 0)"
  "getExpectedIndentFromToken exOpts exOffsets tY = Some (Some 2)"
  "getExpectedIndentFromToken exOpts exOffsets tEq = Some None"
  "getExpectedIndentFromToken exOpts exOffsets tClose = Some (Some 0)"
  by (simp_all add: getExpectedIndentFromToken.simps exOpts_def)

lemma ex_indent_text:
  "getIndentText exSourceCode \<lparr> line = 2, column = 0 \<rparr> = Returns []"
  "getIndentText exTabbed \<lparr> line = 2, column = 2 \<rparr> = Returns [CHR 0x09, CHR '' '']"
  by (simp_all add: getIndentText_def exSourceCode_def exLines_def exTabbed_def)

lemma ex_index:
  "getIndexFromLoc exSourceCode \<lparr> line = 2, column = 0 \<rparr> = 9"
  "getIndexFromLoc exTabbed \<lparr> line = 2, column = 0 \<rparr> = 2"
  "getIndexFromLoc exTabbed \<lparr> line = 2, column = Suc 0 \<rparr> = 3"
  by (simp_all add: exSourceCode_def exIndexFromLoc_def exLines_def exTabbed_def)

section \<open>Lemmas on \<open>processLine\<close>\<close>

lemma tokens_stop_at_ignored:
  "t \<in> ign \<Longrightarrow>
   \<forall>u\<in>set pre. u \<notin> ign \<longrightarrow> getExpectedIndentFromToken opts offs u = Some None \<Longrightarrow>
   getExpectedIndentFromTokens opts offs ign (pre @ t # post) = Some None"
  by (induction pre) auto

lemma processLine_unresolved:
  "getExpectedIndentFromTokens opts (offsets st) (ignoreTokens st) (firstToken # rest) = Some None \<Longrightarrow>
   processLine opts sc (firstToken # rest) prevComments prevToken st =
     Returns (st\<lparr> offsets :=
       saveExpectedIndent (firstToken # rest) (int (column (loc_start firstToken))) (offsets st) \<rparr>)"
  by (simp add: processLine_def)


lemma ignoreTokens_ignore: "ignoreTokens (ignore sc nd st) = ignoreTokens st \<union> set (getTokens sc nd False)"
proof -
  have "\<And>A. fold insert xs A = A \<union> set xs" for xs :: "token list"
    by (induction xs) auto
  then show ?thesis by (simp add: ignore_def)
qed

lemma ignoreTokens_exec_call: "ignoreTokens st \<subseteq> ignoreTokens (exec_call sc c st)"
  by (cases c) (auto simp: ignoreTokens_ignore)

lemma ignoreTokens_exec_calls: "ignoreTokens st \<subseteq> ignoreTokens (exec_calls sc cs st)"
  unfolding exec_calls_def
proof (induction cs arbitrary: st)
  case Nil then show ?case by simp
next
  case (Cons c cs)
  have "ignoreTokens st \<subseteq> ignoreTokens (exec_call sc c st)" by (rule ignoreTokens_exec_call)
  also have "\<dots> \<subseteq> ignoreTokens (fold (exec_call sc) cs (exec_call sc c st))" by (rule Cons.IH)
  finally show ?case by simp
qed

lemma processLine_ignoreTokens:
  "processLine opts sc tokens prevComments prevToken st = Returns st' \<Longrightarrow>
   ignoreTokens st' = ignoreTokens st"
  by (auto simp: processLine_def split: list.splits option.splits outcome.splits
      elim!: obind.elims)



lemma ex_width_report:
  "validateToken exOpts exSourceCode tY 2 =
     Returns [\<lparr> rloc_start = \<lparr> line = 2, column = 0 \<rparr>,
                rloc_end = \<lparr> line = 2, column = 0 \<rparr>,
                messageId = unexpectedIndentation,
                data = IndentationData 2 0 ''space'' ''space'' ''s'' ''s'',
                fix_result = Inr \<lparr> edit_range = (9, 9), edit_text = ''  '' \<rparr> \<rparr>]"
proof -
  have rp: "\<And>x :: char. replicate 2 x = [x, x]" by (simp add: numeral_2_eq_2)
  show ?thesis
    by (simp add: validateToken_def ex_indent_text trim_def widthReport_def ex_index
        exOpts_def unitName_def pluralSuffix_def rp)
qed

section \<open>Lemmas on the walker\<close>







lemma obind_assoc: "obind (obind m f) g = obind m (\<lambda>x. obind (f x) g)"
  by (cases m) simp_all

section \<open>Lemmas on the example with comments\<close>

lemma comment_tokens [simp]:
  "isCommentToken cmtA" "isCommentToken cmtB" "isCommentToken cmtC"
  "\<not> isCommentToken cOpen" "\<not> isCommentToken cX" "\<not> isCommentToken cClose"
  by (simp_all add: isCommentToken_def cmtA_def cmtB_def cmtC_def cOpen_def cX_def cClose_def
      mkToken_def)

lemma comment_locs [simp]:
  "loc_start cOpen = \<lparr> line = 1, column = 0 \<rparr>" "loc_end cOpen = \<lparr> line = 1, column = 1 \<rparr>"
  "loc_start cmtA = \<lparr> line = 2, column = 0 \<rparr>" "loc_end cmtA = \<lparr> line = 2, column = 7 \<rparr>"
  "loc_start cmtB = \<lparr> line = 2, column = 8 \<rparr>" "loc_end cmtB = \<lparr> line = 2, column = 15 \<rparr>"
  "loc_start cmtC = \<lparr> line = 3, column = 0 \<rparr>" "loc_end cmtC = \<lparr> line = 3, column = 4 \<rparr>"
  "loc_start cX = \<lparr> line = 4, column = 0 \<rparr>" "loc_end cX = \<lparr> line = 4, column = 1 \<rparr>"
  "loc_start cClose = \<lparr> line = 5, column = 0 \<rparr>" "loc_end cClose = \<lparr> line = 5, column = 1 \<rparr>"
  by (simp_all add: cmtA_def cmtB_def cmtC_def cOpen_def cX_def cClose_def mkToken_def)

lemma comment_distinct [simp]:
  "cOpen \<noteq> cX" "cOpen \<noteq> cClose" "cX \<noteq> cOpen" "cX \<noteq> cClose" "cClose \<noteq> cOpen" "cClose \<noteq> cX"
  by (simp_all add: cOpen_def cX_def cClose_def mkToken_def)

lemma exCommentedOffsets_simps [simp]:
  "exCommentedOffsets cOpen = Some (Baseline 0 None)"
  "exCommentedOffsets cX = Some (Relative cOpen 1 None)"
  "exCommentedOffsets cClose = Some (Relative cOpen 0 None)"
  by (simp_all add: exCommentedOffsets_def)



section \<open>Lemmas on the visitors\<close>

lemma obind_Returns [simp]: "obind m Returns = m"
  by (cases m) simp_all

lemma ignore_frame [simp]:
  "offsets (ignore sc nd st) = offsets st" "reports (ignore sc nd st) = reports st"
  by (simp_all add: ignore_def)

lemma ignore_funpow:
  "offsets ((ignore sc nd ^^ n) st) = offsets st"
  "reports ((ignore sc nd ^^ n) st) = reports st"
  "ignoreTokens ((ignore sc nd ^^ Suc n) st) = ignoreTokens st \<union> set (getTokens sc nd False)"
  by (induction n) (auto simp: ignoreTokens_ignore)

lemma compositing_wraps:
  "visitor key = Some h0 \<Longrightarrow>
   \<exists>n. compositingIgnoresVisitor sc sels visitor key =
         Some (\<lambda>nd st. obind (h0 nd st) (\<lambda>st'. Returns ((ignore sc nd ^^ n) st')))"
proof (induction sels arbitrary: visitor h0)
  case Nil
  have "h0 = (\<lambda>nd st. obind (h0 nd st) (\<lambda>st'. Returns ((ignore sc nd ^^ 0) st')))"
    by (intro ext) simp
  then show ?case using Nil by (intro exI [of _ 0]) simp
next
  case (Cons sel sels)
  let ?k = "sel @ '':exit''"
  show ?case
  proof (cases "?k = key")
    case True
    let ?w = "\<lambda>nd st. obind (h0 nd st) (\<lambda>st'. Returns (ignore sc nd st'))"
    have step: "compositingIgnoresVisitor sc (sel # sels) visitor =
                compositingIgnoresVisitor sc sels (visitor(key \<mapsto> ?w))"
      using True Cons.prems by (simp add: Let_def)
    obtain n where n: "compositingIgnoresVisitor sc sels (visitor(key \<mapsto> ?w)) key =
         Some (\<lambda>nd st. obind (?w nd st) (\<lambda>st'. Returns ((ignore sc nd ^^ n) st')))"
    proof -
      have "(visitor(key \<mapsto> ?w)) key = Some ?w" by simp
      from Cons.IH [of "visitor(key \<mapsto> ?w)" ?w, OF this] show ?thesis using that by blast
    qed
    have "(\<lambda>nd st. obind (?w nd st) (\<lambda>st'. Returns ((ignore sc nd ^^ n) st')))
          = (\<lambda>nd st. obind (h0 nd st) (\<lambda>st'. Returns ((ignore sc nd ^^ Suc n) st')))"
      by (intro ext) (simp add: obind_assoc funpow_swap1)
    then show ?thesis using step n by (intro exI [of _ "Suc n"]) simp
  next
    case False
    have "\<exists>h. compositingIgnoresVisitor sc (sel # sels) visitor =
                compositingIgnoresVisitor sc sels (visitor(?k \<mapsto> h))"
      by (cases "visitor ?k") (auto simp: Let_def)
    then obtain h where step: "compositingIgnoresVisitor sc (sel # sels) visitor =
                compositingIgnoresVisitor sc sels (visitor(?k \<mapsto> h))" ..
    have k: "(visitor(?k \<mapsto> h)) key = Some h0" using False Cons.prems by simp
    show ?thesis unfolding step by (rule Cons.IH [of "visitor(?k \<mapsto> h)" h0, OF k])
  qed
qed

lemma starExit_unknown:
  "node_type nd \<notin> knownNodes \<Longrightarrow> starExit sc knownNodes nd st = Returns (ignore sc nd st)"
  by (simp add: starExit_def)

lemma defineVisitor_star_exit:
  assumes "endsWith (getFilename ctx) ''.svelte''"
  shows "\<exists>n. defineVisitor ctx defaultOptions ES SV nw ''*:exit'' =
      Some (\<lambda>nd st.
        obind (starExit (getSourceCode ctx)
                 (dom (ES (getSourceCode ctx)
                         (parseOptions (orDefault (options0 ctx)
                            \<lparr> u_indent = None, u_switchCase = None, u_ignoredNodes = None \<rparr>)
                            defaultOptions)
                       ++ SV (getSourceCode ctx)
                         (parseOptions (orDefault (options0 ctx)
                            \<lparr> u_indent = None, u_switchCase = None, u_ignoredNodes = None \<rparr>)
                            defaultOptions))) nd st)
          (\<lambda>st'. Returns ((ignore (getSourceCode ctx) nd ^^ n) st')))"
  using assms unfolding defineVisitor_def Let_def
  by (simp del: map_add_dom_app_simps dom_map_add) (rule compositing_wraps, simp)

section \<open>Lemmas on the example contexts\<close>

lemma ex_filenames:
  "\<not> endsWith (getFilename exOtherContext) ''.svelte''"
  "endsWith (getFilename exContext) ''.svelte''"
  by (simp_all add: endsWith_def exOtherContext_def exContext_def)

lemma ex_parsed_options:
  "parseOptions (orDefault (options0 exContext)
      \<lparr> u_indent = None, u_switchCase = None, u_ignoredNodes = None \<rparr>) exDefaults = exOpts"
  by (simp add: parseOptions_def orDefault_def exContext_def exDefaults_def exOpts_def)

lemma ex_visit_if:
  "exec_calls exSourceCode
     [SetOffsetBaseLine (One (Some tIf)) 0, SetOffset (One (Some tParen)) 1 tIf,
      SetOffset (One (Some tBrace)) 0 tIf, SetOffset (One (Some tY)) 1 tBrace,
      SetOffset (One (Some tClose)) 0 tBrace] initialState = exState"
  by (simp add: exec_calls_def initialState_def exState_def exOffsets_def)

section \<open>Properties kept along a whole traversal\<close>

lemma obind_Returns_iff:
  "obind m f = Returns y \<longleftrightarrow> (\<exists>x. m = Returns x \<and> f x = Returns y)"
  by (cases m) simp_all

lemma exec_calls_invariant:
  assumes "\<And>c st. P st \<Longrightarrow> P (exec_call sc c st)"
  shows "P st \<Longrightarrow> P (exec_calls sc cs st)"
  unfolding exec_calls_def
  by (induction cs arbitrary: st) (simp_all add: assms)

lemma processLines_invariant:
  assumes "\<And>tokens pc prev st st'.
             P st \<Longrightarrow> processLine opts sc tokens pc prev st = Returns st' \<Longrightarrow> P st'"
  shows "P st \<Longrightarrow> processLines opts sc groups prev st = Returns st' \<Longrightarrow> P st'"
proof (induction groups arbitrary: prev st)
  case Nil then show ?case by simp
next
  case (Cons g groups)
  obtain pc tokens where g: "g = (pc, tokens)" by (cases g)
  from Cons.prems(2) obtain st1 where
    s1: "processLine opts sc tokens pc prev st = Returns st1" and
    s2: "processLines opts sc groups (Some (last tokens)) st1 = Returns st'"
    by (auto simp: g obind_Returns_iff)
  have "P st1" using assms [OF Cons.prems(1) s1] .
  then show ?case using Cons.IH s2 by blast
qed

lemma compositing_invariant:
  assumes ign: "\<And>nd st. P st \<Longrightarrow> P (ignore sc nd st)"
  shows "(\<And>key h. visitor key = Some h \<Longrightarrow> preserved P h) \<Longrightarrow>
         compositingIgnoresVisitor sc sels visitor key = Some h \<Longrightarrow> preserved P h"
proof (induction sels arbitrary: visitor)
  case Nil then show ?case by simp
next
  case (Cons sel sels)
  let ?k = "sel @ '':exit''"
  show ?case
  proof (cases "visitor ?k")
    case None
    let ?v = "visitor(?k \<mapsto> (\<lambda>nd st. Returns (ignore sc nd st)))"
    have step: "compositingIgnoresVisitor sc sels ?v key = Some h"
      using Cons.prems(2) None by (simp add: Let_def)
    have "\<And>key h. ?v key = Some h \<Longrightarrow> preserved P h"
      using Cons.prems(1) ign by (auto simp: preserved_def split: if_splits)
    from Cons.IH [OF this step] show ?thesis .
  next
    case (Some h0)
    let ?v = "visitor(?k \<mapsto> (\<lambda>nd st. obind (h0 nd st) (\<lambda>st'. Returns (ignore sc nd st'))))"
    have step: "compositingIgnoresVisitor sc sels ?v key = Some h"
      using Cons.prems(2) Some by (simp add: Let_def)
    have h0: "preserved P h0" using Cons.prems(1) Some by blast
    have "preserved P (\<lambda>nd st. obind (h0 nd st) (\<lambda>st'. Returns (ignore sc nd st')))"
      using h0 ign by (auto simp: preserved_def obind_Returns_iff)
    then have "\<And>key h. ?v key = Some h \<Longrightarrow> preserved P h"
      using Cons.prems(1) by (auto split: if_splits)
    from Cons.IH [OF this step] show ?thesis .
  qed
qed

lemma defineVisitor_invariant:
  assumes ign: "\<And>nd st. P st \<Longrightarrow> P (ignore (getSourceCode ctx) nd st)"
    and call: "\<And>c st. P st \<Longrightarrow> P (exec_call (getSourceCode ctx) c st)"
    and pl: "\<And>opts tokens pc prev st st'.
             P st \<Longrightarrow> processLine opts (getSourceCode ctx) tokens pc prev st = Returns st' \<Longrightarrow> P st'"
    and v: "defineVisitor ctx defaultOptions ES SV nw key = Some h"
  shows "preserved P h"
proof (cases "endsWith (getFilename ctx) ''.svelte''")
  case False
  then show ?thesis using v by (simp add: defineVisitor_def)
next
  case True
  let ?sc = "getSourceCode ctx"
  let ?opts = "parseOptions (orDefault (options0 ctx)
                 \<lparr> u_indent = None, u_switchCase = None, u_ignoredNodes = None \<rparr>) defaultOptions"
  let ?nv = "ES ?sc ?opts ++ SV ?sc ?opts"
  let ?base = "(map_option (liftHandler ?sc) \<circ> ?nv)
                (''*:exit'' \<mapsto> starExit ?sc (dom ?nv),
                 ''Program:exit'' \<mapsto> programExit ?opts ?sc nw)"
  have v': "compositingIgnoresVisitor ?sc (ignoredNodes ?opts) ?base key = Some h"
    using v True by (simp add: defineVisitor_def Let_def)
  have star: "preserved P (starExit ?sc (dom ?nv))"
    using ign by (auto simp: preserved_def starExit_def split: if_splits)
  have prog: "preserved P (programExit ?opts ?sc nw)"
  proof -
    have one: "\<And>tokens pc prev st st'.
        P st \<Longrightarrow> processLine ?opts ?sc tokens pc prev st = Returns st' \<Longrightarrow> P st'"
      using pl by blast
    have "P st \<Longrightarrow> processLines ?opts ?sc groups prev st = Returns st' \<Longrightarrow> P st'"
      for groups prev st st'
      by (rule processLines_invariant [where P = P and opts = ?opts and sc = ?sc, OF one])
    then show ?thesis unfolding preserved_def programExit_def by blast
  qed
  have lift: "preserved P (liftHandler ?sc f)" for f
  proof -
    have "P st \<Longrightarrow> P (exec_calls ?sc cs st)" for cs st
      by (rule exec_calls_invariant [where P = P and sc = ?sc, OF call])
    then show ?thesis unfolding preserved_def liftHandler_def by auto
  qed
  have "\<And>key h. ?base key = Some h \<Longrightarrow> preserved P h"
    using star prog lift by (auto split: if_splits)
  from compositing_invariant [where P = P, OF ign this v'] show ?thesis .
qed

lemma runEvents_invariant:
  assumes "\<And>key h. visitor key = Some h \<Longrightarrow> preserved P h"
  shows "P st \<Longrightarrow> runEvents visitor events st = Returns st' \<Longrightarrow> P st'"
proof (induction events arbitrary: st)
  case Nil then show ?case by simp
next
  case (Cons ev events)
  obtain key nd where ev: "ev = (key, nd)" by (cases ev)
  show ?case
  proof (cases "visitor key")
    case None
    then show ?thesis using Cons ev by simp
  next
    case (Some h)
    from Cons.prems(2) obtain st1 where
      s1: "h nd st = Returns st1" and s2: "runEvents visitor events st1 = Returns st'"
      by (auto simp: ev Some obind_Returns_iff)
    have "P st1" using assms [OF Some] Cons.prems(1) s1 by (auto simp: preserved_def)
    then show ?thesis using Cons.IH s2 by blast
  qed
qed

lemma processLine_offsets:
  "processLine opts sc tokens pc prev st = Returns st' \<Longrightarrow>
   \<exists>v. offsets st' = saveExpectedIndent tokens v (offsets st)"
  by (auto simp: processLine_def obind_Returns_iff split: list.splits option.splits)

lemma nsr_exec_call:
  "noSelfReference (offsets st) \<Longrightarrow> noSelfReference (offsets (exec_call sc c st))"
  by (cases c) (simp_all add: nsr_setOffset nsr_copyOffset nsr_setOffsetBaseLine)

lemma nsr_processLine:
  "noSelfReference (offsets st) \<Longrightarrow> processLine opts sc tokens pc prev st = Returns st' \<Longrightarrow>
   noSelfReference (offsets st')"
  using processLine_offsets [of opts sc tokens pc prev st st'] by (auto simp: nsr_save)

lemma analysis_no_self_reference:
  assumes "noSelfReference (offsets st)"
    and "runEvents (defineVisitor ctx defaultOptions ES SV nw) events st = Returns st'"
  shows "noSelfReference (offsets st')"
proof -
  have "preserved (\<lambda>s. noSelfReference (offsets s)) h"
    if "defineVisitor ctx defaultOptions ES SV nw key = Some h" for key h
    by (rule defineVisitor_invariant [where P = "\<lambda>s. noSelfReference (offsets s)", OF _ _ _ that])
       (simp_all add: nsr_exec_call nsr_processLine)
  from runEvents_invariant [where P = "\<lambda>s. noSelfReference (offsets s)", OF this assms]
  show ?thesis .
qed

lemma analysis_ignore_grows:
  assumes "runEvents (defineVisitor ctx defaultOptions ES SV nw) events st = Returns st'"
  shows "ignoreTokens st \<subseteq> ignoreTokens st'"
proof -
  let ?P = "\<lambda>s. ignoreTokens st \<subseteq> ignoreTokens s"
  have "preserved ?P h"
    if "defineVisitor ctx defaultOptions ES SV nw key = Some h" for key h
  proof (rule defineVisitor_invariant [where P = ?P, OF _ _ _ that])
    show "\<And>nd s. ?P s \<Longrightarrow> ?P (ignore (getSourceCode ctx) nd s)"
      by (auto simp: ignoreTokens_ignore)
    show "\<And>c s. ?P s \<Longrightarrow> ?P (exec_call (getSourceCode ctx) c s)"
      using ignoreTokens_exec_call by blast
    show "\<And>opts tokens pc prev s s'. ?P s \<Longrightarrow>
            processLine opts (getSourceCode ctx) tokens pc prev s = Returns s' \<Longrightarrow> ?P s'"
      by (simp add: processLine_ignoreTokens)
  qed
  from runEvents_invariant [where P = ?P, OF this _ assms] show ?thesis by simp
qed

section \<open>A run of the analysis on the example\<close>

lemma ex_visitor:
  "defineVisitor exContext exDefaults exES exSV exIsNotWhitespace ''IfStatement''
     = Some (liftHandler exSourceCode
         (\<lambda>nd. [SetOffsetBaseLine (One (Some tIf)) 0, SetOffset (One (Some tParen)) 1 tIf,
                SetOffset (One (Some tBrace)) 0 tIf, SetOffset (One (Some tY)) 1 tBrace,
                SetOffset (One (Some tClose)) 0 tBrace]))"
  "defineVisitor exContext exDefaults exES exSV exIsNotWhitespace ''*:exit''
     = Some (starExit exSourceCode {''IfStatement''})"
  "defineVisitor exContext exDefaults exES exSV exIsNotWhitespace ''Program:exit''
     = Some (programExit exOpts exSourceCode exIsNotWhitespace)"
proof -
  have sc: "getSourceCode exContext = exSourceCode" by (simp add: exContext_def)
  have ign: "ignoredNodes exOpts = []" by (simp add: exOpts_def)
  have d: "dom (exES exSourceCode exOpts ++ exSV exSourceCode exOpts) = {''IfStatement''}"
    by (simp add: exES_def exSV_def)
  have v: "defineVisitor exContext exDefaults exES exSV exIsNotWhitespace =
      (map_option (liftHandler exSourceCode) \<circ> (exES exSourceCode exOpts ++ exSV exSourceCode exOpts))
        (''*:exit'' \<mapsto> starExit exSourceCode {''IfStatement''},
         ''Program:exit'' \<mapsto> programExit exOpts exSourceCode exIsNotWhitespace)"
    using ex_filenames(2)
    by (simp add: defineVisitor_def Let_def ex_parsed_options sc ign d
        del: map_add_dom_app_simps dom_map_add)
  show "defineVisitor exContext exDefaults exES exSV exIsNotWhitespace ''IfStatement''
     = Some (liftHandler exSourceCode
         (\<lambda>nd. [SetOffsetBaseLine (One (Some tIf)) 0, SetOffset (One (Some tParen)) 1 tIf,
                SetOffset (One (Some tBrace)) 0 tIf, SetOffset (One (Some tY)) 1 tBrace,
                SetOffset (One (Some tClose)) 0 tBrace]))"
    by (simp add: v exES_def exSV_def)
  show "defineVisitor exContext exDefaults exES exSV exIsNotWhitespace ''*:exit''
     = Some (starExit exSourceCode {''IfStatement''})"
    by (simp add: v)
  show "defineVisitor exContext exDefaults exES exSV exIsNotWhitespace ''Program:exit''
     = Some (programExit exOpts exSourceCode exIsNotWhitespace)"
    by (simp add: v)
qed

lemma ex_groups:
  "iterateLineTokens (filter exIsNotWhitespace (getTokens exSourceCode exProgram True))
     = [([], [tIf, tParen, tBrace]), ([], [tY, tEq]), ([], [tClose])]"
proof -
  have f: "filter exIsNotWhitespace (getTokens exSourceCode exProgram True)
             = [tIf, tParen, tBrace, tY, tEq, tClose]"
    by (simp add: exSourceCode_def exProgram_def exIsNotWhitespace_def tIf_def tParen_def
        tBrace_def tY_def tEq_def tClose_def mkToken_def)
  have c: "\<not> isCommentToken tIf" "\<not> isCommentToken tY"
    by (simp_all add: isCommentToken_def tIf_def tY_def tClose_def mkToken_def)
  have c3: "\<not> isCommentToken tClose"
    by (simp add: isCommentToken_def tClose_def mkToken_def)
  show ?thesis by (simp add: f iterateLineTokens_def c c3)
qed

lemma ex_program_exit:
  "programExit exOpts exSourceCode exIsNotWhitespace exProgram
      \<lparr> offsets = exOffsets, ignoreTokens = {tY, tEq}, reports = [] \<rparr>
     = Returns \<lparr> offsets = exCachedOffsets 0, ignoreTokens = {tY, tEq}, reports = [] \<rparr>"
  "programExit exOpts exSourceCode exIsNotWhitespace exProgram exState
     = Returns \<lparr> offsets = exCachedOffsets 2, ignoreTokens = {},
                 reports = [\<lparr> rloc_start = \<lparr> line = 2, column = 0 \<rparr>,
                              rloc_end = \<lparr> line = 2, column = 0 \<rparr>,
                              messageId = unexpectedIndentation,
                              data = IndentationData 2 0 ''space'' ''space'' ''s'' ''s'',
                              fix_result =
                                Inr \<lparr> edit_range = (9, 9), edit_text = ''  '' \<rparr> \<rparr>] \<rparr>"
proof -
  let ?o1 = "exOffsets(tIf \<mapsto> Baseline 0 (Some 0), tParen \<mapsto> Relative tIf 1 (Some 0),
                       tBrace \<mapsto> Relative tIf 0 (Some 0))"
  have l1: "processLine exOpts exSourceCode [tIf, tParen, tBrace] [] None
              \<lparr> offsets = exOffsets, ignoreTokens = ig, reports = [] \<rparr>
            = Returns \<lparr> offsets = ?o1, ignoreTokens = ig, reports = [] \<rparr>" for ig
    by (simp add: processLine_def ex_resolved validateLine_def
        saveExpectedIndent_def saveExpectedIndent1_def)
  have l2i: "processLine exOpts exSourceCode [tY, tEq] [] (Some tBrace)
              \<lparr> offsets = ?o1, ignoreTokens = {tY, tEq}, reports = [] \<rparr>
            = Returns \<lparr> offsets = ?o1(tY \<mapsto> Relative tBrace 1 (Some 0)),
                        ignoreTokens = {tY, tEq}, reports = [] \<rparr>"
    by (simp add: processLine_def saveExpectedIndent_def saveExpectedIndent1_def)
  have rY: "getExpectedIndentFromToken exOpts ?o1 tY = Some (Some 2)"
    by (simp add: getExpectedIndentFromToken.simps exOpts_def)
  have l2: "processLine exOpts exSourceCode [tY, tEq] [] (Some tBrace)
              \<lparr> offsets = ?o1, ignoreTokens = {}, reports = [] \<rparr>
            = Returns \<lparr> offsets = ?o1(tY \<mapsto> Relative tBrace 1 (Some 2)),
                        ignoreTokens = {},
                        reports = [\<lparr> rloc_start = \<lparr> line = 2, column = 0 \<rparr>,
                              rloc_end = \<lparr> line = 2, column = 0 \<rparr>,
                              messageId = unexpectedIndentation,
                              data = IndentationData 2 0 ''space'' ''space'' ''s'' ''s'',
                              fix_result =
                                Inr \<lparr> edit_range = (9, 9), edit_text = ''  '' \<rparr> \<rparr>] \<rparr>"
    by (simp add: processLine_def rY validateLine_def ex_width_report
        saveExpectedIndent_def saveExpectedIndent1_def)
  have rC: "getExpectedIndentFromToken exOpts (?o1(tY \<mapsto> Relative tBrace 1 (Some v))) tClose
              = Some (Some 0)" for v
    by (simp add: getExpectedIndentFromToken.simps exOpts_def)
  have vC: "validateToken exOpts exSourceCode tClose 0 = Returns []"
    by (simp add: validateToken_def getIndentText_def exSourceCode_def exLines_def trim_def)
  have l3: "processLine exOpts exSourceCode [tClose] [] (Some tEq)
              \<lparr> offsets = ?o1(tY \<mapsto> Relative tBrace 1 (Some v)), ignoreTokens = ig, reports = rs \<rparr>
            = Returns \<lparr> offsets = exCachedOffsets v, ignoreTokens = ig, reports = rs \<rparr>" for v ig rs
    by (simp add: processLine_def rC validateLine_def vC exCachedOffsets_def
        saveExpectedIndent_def saveExpectedIndent1_def)
  show "programExit exOpts exSourceCode exIsNotWhitespace exProgram
      \<lparr> offsets = exOffsets, ignoreTokens = {tY, tEq}, reports = [] \<rparr>
     = Returns \<lparr> offsets = exCachedOffsets 0, ignoreTokens = {tY, tEq}, reports = [] \<rparr>"
    by (simp add: programExit_def ex_groups l1 l2i l3)
  show "programExit exOpts exSourceCode exIsNotWhitespace exProgram exState
     = Returns \<lparr> offsets = exCachedOffsets 2, ignoreTokens = {},
                 reports = [\<lparr> rloc_start = \<lparr> line = 2, column = 0 \<rparr>,
                              rloc_end = \<lparr> line = 2, column = 0 \<rparr>,
                              messageId = unexpectedIndentation,
                              data = IndentationData 2 0 ''space'' ''space'' ''s'' ''s'',
                              fix_result =
                                Inr \<lparr> edit_range = (9, 9), edit_text = ''  '' \<rparr> \<rparr>] \<rparr>"
    by (simp add: programExit_def ex_groups exState_def l1 l2 l3)
qed

lemma ex_run:
  "runEvents (defineVisitor exContext exDefaults exES exSV exIsNotWhitespace)
     [(''IfStatement'', exIf), (''*:exit'', exMystery), (''Program:exit'', exProgram)]
     initialState
   = Returns \<lparr> offsets = exCachedOffsets 0, ignoreTokens = {tY, tEq}, reports = [] \<rparr>"
proof -
  have m: "starExit exSourceCode {''IfStatement''} exMystery exState
             = Returns \<lparr> offsets = exOffsets, ignoreTokens = {tY, tEq}, reports = [] \<rparr>"
    by (simp add: starExit_def exMystery_def ignore_def exSourceCode_def exState_def
        insert_commute)
  show ?thesis
    by (simp add: ex_visitor liftHandler_def ex_visit_if m ex_program_exit)
qed

section \<open>Lemmas on nodes of unknown type\<close>

lemma runEvents_append:
  "runEvents visitor (xs @ ys) st = obind (runEvents visitor xs st) (runEvents visitor ys)"
proof (induction xs arbitrary: st)
  case Nil then show ?case by simp
next
  case (Cons ev xs)
  obtain key nd where ev: "ev = (key, nd)" by (cases ev)
  show ?case
  proof (cases "visitor key")
    case None then show ?thesis using Cons ev by simp
  next
    case (Some h)
    then show ?thesis using Cons ev by (cases "h nd st") simp_all
  qed
qed

lemma star_exit_unknown_node:
  assumes "endsWith (getFilename ctx) ''.svelte''"
    and "node_type nd \<notin> dom (ES (getSourceCode ctx)
                                  (parseOptions (orDefault (options0 ctx)
                                     \<lparr> u_indent = None, u_switchCase = None,
                                       u_ignoredNodes = None \<rparr>) defaultOptions))"
    and "node_type nd \<notin> dom (SV (getSourceCode ctx)
                                  (parseOptions (orDefault (options0 ctx)
                                     \<lparr> u_indent = None, u_switchCase = None,
                                       u_ignoredNodes = None \<rparr>) defaultOptions))"
  shows "\<exists>h. defineVisitor ctx defaultOptions ES SV nw ''*:exit'' = Some h
           \<and> (\<forall>st. \<exists>st'. h nd st = Returns st'
                 \<and> ignoreTokens st' = ignoreTokens st \<union> set (getTokens (getSourceCode ctx) nd False)
                 \<and> offsets st' = offsets st \<and> reports st' = reports st)"
proof -
  let ?opts = "parseOptions (orDefault (options0 ctx)
                 \<lparr> u_indent = None, u_switchCase = None, u_ignoredNodes = None \<rparr>) defaultOptions"
  let ?sc = "getSourceCode ctx"
  from assms(1) obtain n where n: "defineVisitor ctx defaultOptions ES SV nw ''*:exit'' =
      Some (\<lambda>nd st.
        obind (starExit ?sc (dom (ES ?sc ?opts ++ SV ?sc ?opts)) nd st)
          (\<lambda>st'. Returns ((ignore ?sc nd ^^ n) st')))"
    using defineVisitor_star_exit [of ctx defaultOptions ES SV nw] by blast
  let ?h = "\<lambda>nd st.
        obind (starExit ?sc (dom (ES ?sc ?opts ++ SV ?sc ?opts)) nd st)
          (\<lambda>st'. Returns ((ignore ?sc nd ^^ n) st'))"
  have r: "?h nd st = Returns ((ignore ?sc nd ^^ Suc n) st)" for st
    using assms(2,3) by (simp add: starExit_def funpow_swap1)
  have "\<exists>st'. ?h nd st = Returns st'
          \<and> ignoreTokens st' = ignoreTokens st \<union> set (getTokens ?sc nd False)
          \<and> offsets st' = offsets st \<and> reports st' = reports st" for st
    using r [of st] ignore_funpow [where sc = ?sc and nd = nd and n = n and st = st]
    by (intro exI [of _ "(ignore ?sc nd ^^ Suc n) st"]) simp
  then show ?thesis using n by blast
qed

lemma unknown_node_stays_ignored:
  assumes "endsWith (getFilename ctx) ''.svelte''"
    and "node_type nd \<notin> dom (ES (getSourceCode ctx)
                                  (parseOptions (orDefault (options0 ctx)
                                     \<lparr> u_indent = None, u_switchCase = None,
                                       u_ignoredNodes = None \<rparr>) defaultOptions))"
    and "node_type nd \<notin> dom (SV (getSourceCode ctx)
                                  (parseOptions (orDefault (options0 ctx)
                                     \<lparr> u_indent = None, u_switchCase = None,
                                       u_ignoredNodes = None \<rparr>) defaultOptions))"
    and run: "runEvents (defineVisitor ctx defaultOptions ES SV nw)
                (before @ (''*:exit'', nd) # after) st = Returns st'"
  shows "set (getTokens (getSourceCode ctx) nd False) \<subseteq> ignoreTokens st'"
proof -
  let ?V = "defineVisitor ctx defaultOptions ES SV nw"
  from star_exit_unknown_node
    [where ctx = ctx and nd = nd and ES = ES and SV = SV and defaultOptions = defaultOptions
       and nw = nw, OF assms(1-3)]
  obtain h where
    h: "?V ''*:exit'' = Some h" and
    eff: "\<And>s. \<exists>s'. h nd s = Returns s'
            \<and> ignoreTokens s' = ignoreTokens s \<union> set (getTokens (getSourceCode ctx) nd False)"
    by blast
  from run obtain s1 where s1: "runEvents ?V before st = Returns s1"
    and rest: "runEvents ?V ((''*:exit'', nd) # after) s1 = Returns st'"
    by (auto simp: runEvents_append obind_Returns_iff)
  from rest h obtain s2 where s2: "h nd s1 = Returns s2"
    and after: "runEvents ?V after s2 = Returns st'"
    by (auto simp: obind_Returns_iff)
  from eff [of s1] s2 have "set (getTokens (getSourceCode ctx) nd False) \<subseteq> ignoreTokens s2"
    by auto
  also have "\<dots> \<subseteq> ignoreTokens st'" using after by (rule analysis_ignore_grows)
  finally show ?thesis .
qed

section \<open>Lemmas on the cached values\<close>

lemma setOffset1_entry:
  "setOffset1 x off b offs t = Some info \<Longrightarrow> info = Relative b off None \<or> offs t = Some info"
  by (cases x) (auto split: if_splits)

lemma setOffset_entry:
  "setOffset tok off b offs t = Some info \<Longrightarrow> info = Relative b off None \<or> offs t = Some info"
proof (cases tok)
  case (One x) then show "setOffset tok off b offs t = Some info \<Longrightarrow> ?thesis"
    by (simp add: setOffset1_entry)
next
  case (Many ts)
  have "fold (\<lambda>x. setOffset1 x off b) ts offs t = Some info \<Longrightarrow>
        info = Relative b off None \<or> offs t = Some info"
  proof (induction ts arbitrary: offs)
    case Nil then show ?case by simp
  next
    case (Cons x ts)
    from Cons.IH [of "setOffset1 x off b offs"] Cons.prems
    have "info = Relative b off None \<or> setOffset1 x off b offs t = Some info" by simp
    then show ?case using setOffset1_entry by blast
  qed
  then show "setOffset tok off b offs t = Some info \<Longrightarrow> ?thesis" using Many by simp
qed

lemma setOffsetBaseLine1_entry:
  "setOffsetBaseLine1 x off offs t = Some info \<Longrightarrow> info = Baseline off None \<or> offs t = Some info"
  by (cases x) (auto split: if_splits)

lemma setOffsetBaseLine_entry:
  "setOffsetBaseLine tok off offs t = Some info \<Longrightarrow> info = Baseline off None \<or> offs t = Some info"
proof (cases tok)
  case (One x) then show "setOffsetBaseLine tok off offs t = Some info \<Longrightarrow> ?thesis"
    by (simp add: setOffsetBaseLine1_entry)
next
  case (Many ts)
  have "fold (\<lambda>x. setOffsetBaseLine1 x off) ts offs t = Some info \<Longrightarrow>
        info = Baseline off None \<or> offs t = Some info"
  proof (induction ts arbitrary: offs)
    case Nil then show ?case by simp
  next
    case (Cons x ts)
    from Cons.IH [of "setOffsetBaseLine1 x off offs"] Cons.prems
    have "info = Baseline off None \<or> setOffsetBaseLine1 x off offs t = Some info" by simp
    then show ?case using setOffsetBaseLine1_entry by blast
  qed
  then show "setOffsetBaseLine tok off offs t = Some info \<Longrightarrow> ?thesis" using Many by simp
qed

lemma setOffset_sets_no_cache:
  "setOffset tok off b offs t = Some info \<Longrightarrow> expectedIndent info = Some e \<Longrightarrow>
   offs t = Some info"
  using setOffset_entry [of tok off b offs t info] by auto

lemma setOffsetBaseLine_sets_no_cache:
  "setOffsetBaseLine tok off offs t = Some info \<Longrightarrow> expectedIndent info = Some e \<Longrightarrow>
   offs t = Some info"
  using setOffsetBaseLine_entry [of tok off offs t info] by auto

lemma copyOffset_sets_no_cache:
  assumes "copyOffset tok src offs t = Some info" "expectedIndent info = Some e"
  shows "offs t = Some info"
proof -
  have "copyOffset tok src offs = offs
        \<or> (\<exists>b off. copyOffset tok src offs = setOffset tok off b offs)
        \<or> (\<exists>off. copyOffset tok src offs = setOffsetBaseLine tok off offs)"
    by (cases "(tok, src, offs)" rule: copyOffset.cases)
       (auto split: option.splits offset_info.splits)
  then show ?thesis
    using assms setOffset_sets_no_cache [of tok _ _ offs t info e]
      setOffsetBaseLine_sets_no_cache [of tok _ offs t info e]
    by auto
qed

lemma setOffset_many_writes:
  "Some t \<in> set ts \<Longrightarrow> t \<noteq> b \<Longrightarrow> setOffset (Many ts) off b offs t = Some (Relative b off None)"
proof (induction ts rule: rev_induct)
  case Nil then show ?case by simp
next
  case (snoc x ts)
  show ?case
  proof (cases "x = Some t")
    case True then show ?thesis using snoc.prems by simp
  next
    case False
    then have "Some t \<in> set ts" using snoc.prems by simp
    then have "setOffset (Many ts) off b offs t = Some (Relative b off None)"
      using snoc by simp
    then show ?thesis using False by (cases x) auto
  qed
qed

lemma setOffsetBaseLine_many_writes:
  "Some t \<in> set ts \<Longrightarrow> setOffsetBaseLine (Many ts) off offs t = Some (Baseline off None)"
proof (induction ts rule: rev_induct)
  case Nil then show ?case by simp
next
  case (snoc x ts)
  show ?case
  proof (cases "x = Some t")
    case True then show ?thesis by simp
  next
    case False
    then have "Some t \<in> set ts" using snoc.prems by simp
    then have "setOffsetBaseLine (Many ts) off offs t = Some (Baseline off None)"
      using snoc by simp
    then show ?thesis using False by (cases x) auto
  qed
qed

lemma exec_call_sets_no_cache:
  "offsets (exec_call sc c st) t = Some info \<Longrightarrow> expectedIndent info = Some e \<Longrightarrow>
   offsets st t = Some info"
  by (cases c)
     (auto dest: setOffset_sets_no_cache setOffsetBaseLine_sets_no_cache copyOffset_sets_no_cache)

lemma processLine_keeps_cache:
  "processLine opts sc tokens pc prev st = Returns st' \<Longrightarrow>
   offsets st t = Some info \<Longrightarrow> expectedIndent info = Some e \<Longrightarrow> offsets st' t = Some info"
  using processLine_offsets [of opts sc tokens pc prev st st'] by (auto simp: save_cached)

lemma compositing_invariant_at:
  assumes ign: "\<And>nd st. P st \<Longrightarrow> P (ignore sc nd st)"
  shows "(\<And>h. visitor key = Some h \<Longrightarrow> preserved P h) \<Longrightarrow>
         compositingIgnoresVisitor sc sels visitor key = Some h \<Longrightarrow> preserved P h"
proof (induction sels arbitrary: visitor)
  case Nil then show ?case by simp
next
  case (Cons sel sels)
  let ?k = "sel @ '':exit''"
  show ?case
  proof (cases "visitor ?k")
    case None
    let ?v = "visitor(?k \<mapsto> (\<lambda>nd st. Returns (ignore sc nd st)))"
    have step: "compositingIgnoresVisitor sc sels ?v key = Some h"
      using Cons.prems(2) None by (simp add: Let_def)
    have "\<And>h. ?v key = Some h \<Longrightarrow> preserved P h"
      using Cons.prems(1) ign by (auto simp: preserved_def split: if_splits)
    from Cons.IH [OF this step] show ?thesis .
  next
    case (Some h0)
    let ?v = "visitor(?k \<mapsto> (\<lambda>nd st. obind (h0 nd st) (\<lambda>st'. Returns (ignore sc nd st'))))"
    have step: "compositingIgnoresVisitor sc sels ?v key = Some h"
      using Cons.prems(2) Some by (simp add: Let_def)
    have "\<And>h. ?v key = Some h \<Longrightarrow> preserved P h"
    proof -
      fix h assume a: "?v key = Some h"
      show "preserved P h"
      proof (cases "key = ?k")
        case True
        have "preserved P h0" using Cons.prems(1) Some True by blast
        then have "preserved P (\<lambda>nd st. obind (h0 nd st) (\<lambda>st'. Returns (ignore sc nd st')))"
          using ign by (auto simp: preserved_def obind_Returns_iff)
        then show ?thesis using a True by simp
      next
        case False
        then show ?thesis using a Cons.prems(1) by simp
      qed
    qed
    from Cons.IH [OF this step] show ?thesis .
  qed
qed

lemma defineVisitor_invariant_at:
  assumes ign: "\<And>nd st. P st \<Longrightarrow> P (ignore (getSourceCode ctx) nd st)"
    and call: "\<And>c st. key \<noteq> ''Program:exit'' \<Longrightarrow> P st \<Longrightarrow>
                 P (exec_call (getSourceCode ctx) c st)"
    and pl: "\<And>opts tokens pc prev st st'. key = ''Program:exit'' \<Longrightarrow> P st \<Longrightarrow>
               processLine opts (getSourceCode ctx) tokens pc prev st = Returns st' \<Longrightarrow> P st'"
    and v: "defineVisitor ctx defaultOptions ES SV nw key = Some h"
  shows "preserved P h"
proof (cases "endsWith (getFilename ctx) ''.svelte''")
  case False
  then show ?thesis using v by (simp add: defineVisitor_def)
next
  case True
  let ?sc = "getSourceCode ctx"
  let ?opts = "parseOptions (orDefault (options0 ctx)
                 \<lparr> u_indent = None, u_switchCase = None, u_ignoredNodes = None \<rparr>) defaultOptions"
  let ?nv = "ES ?sc ?opts ++ SV ?sc ?opts"
  let ?base = "(map_option (liftHandler ?sc) \<circ> ?nv)
                (''*:exit'' \<mapsto> starExit ?sc (dom ?nv),
                 ''Program:exit'' \<mapsto> programExit ?opts ?sc nw)"
  have v': "compositingIgnoresVisitor ?sc (ignoredNodes ?opts) ?base key = Some h"
    using v True by (simp add: defineVisitor_def Let_def)
  have star: "preserved P (starExit ?sc (dom ?nv))"
    using ign by (auto simp: preserved_def starExit_def split: if_splits)
  have prog: "preserved P (programExit ?opts ?sc nw)" if k: "key = ''Program:exit''"
  proof -
    have one: "\<And>tokens pc prev st st'.
        P st \<Longrightarrow> processLine ?opts ?sc tokens pc prev st = Returns st' \<Longrightarrow> P st'"
      using pl k by blast
    have "P st \<Longrightarrow> processLines ?opts ?sc groups prev st = Returns st' \<Longrightarrow> P st'"
      for groups prev st st'
      by (rule processLines_invariant [where P = P and opts = ?opts and sc = ?sc, OF one])
    then show ?thesis unfolding preserved_def programExit_def by blast
  qed
  have lift: "preserved P (liftHandler ?sc f)" if k: "key \<noteq> ''Program:exit''" for f
  proof -
    have "P st \<Longrightarrow> P (exec_calls ?sc cs st)" for cs st
      by (rule exec_calls_invariant [where P = P and sc = ?sc]) (rule call [OF k])
    then show ?thesis unfolding preserved_def liftHandler_def by auto
  qed
  have "\<And>h. ?base key = Some h \<Longrightarrow> preserved P h"
    using star prog lift by (auto split: if_splits)
  from compositing_invariant_at [where P = P, OF ign this v'] show ?thesis .
qed

lemma runEvents_invariant_on:
  "\<forall>key h. key \<in> fst ` set events \<longrightarrow> visitor key = Some h \<longrightarrow> preserved P h \<Longrightarrow>
   P st \<Longrightarrow> runEvents visitor events st = Returns st' \<Longrightarrow> P st'"
proof (induction events arbitrary: st)
  case Nil then show ?case by simp
next
  case (Cons ev events)
  obtain key nd where ev: "ev = (key, nd)" by (cases ev)
  have rest: "\<forall>key h. key \<in> fst ` set events \<longrightarrow> visitor key = Some h \<longrightarrow> preserved P h"
    using Cons.prems(1) by simp
  show ?case
  proof (cases "visitor key")
    case None
    then show ?thesis using Cons.IH [OF rest Cons.prems(2)] Cons.prems(3) ev by simp
  next
    case (Some h)
    from Cons.prems(3) obtain st1 where
      s1: "h nd st = Returns st1" and s2: "runEvents visitor events st1 = Returns st'"
      by (auto simp: ev Some obind_Returns_iff)
    have "preserved P h" using Cons.prems(1) Some ev by simp
    then have "P st1" using Cons.prems(2) s1 by (auto simp: preserved_def)
    then show ?thesis using Cons.IH [OF rest _ s2] by blast
  qed
qed

lemma program_exit_keeps_cache:
  assumes v: "defineVisitor ctx defaultOptions ES SV nw ''Program:exit'' = Some h"
    and r: "h nd st = Returns st'"
    and c: "offsets st t = Some info" "expectedIndent info = Some e"
  shows "offsets st' t = Some info"
proof -
  let ?P = "\<lambda>s. offsets s t = Some info"
  have "preserved ?P h"
  proof (rule defineVisitor_invariant_at [where P = ?P, OF _ _ _ v])
    show "\<And>nd s. ?P s \<Longrightarrow> ?P (ignore (getSourceCode ctx) nd s)" by simp
    show "\<And>c s. ''Program:exit'' \<noteq> ''Program:exit'' \<Longrightarrow> ?P s \<Longrightarrow>
            ?P (exec_call (getSourceCode ctx) c s)" by simp
    show "\<And>opts tokens pc prev s s'. ''Program:exit'' = ''Program:exit'' \<Longrightarrow> ?P s \<Longrightarrow>
            processLine opts (getSourceCode ctx) tokens pc prev s = Returns s' \<Longrightarrow> ?P s'"
      using c(2) processLine_keeps_cache by blast
  qed
  then show ?thesis using r c(1) by (auto simp: preserved_def)
qed

lemma visits_set_no_cache:
  assumes ev: "\<forall>ev\<in>set events. fst ev \<noteq> ''Program:exit''"
    and r: "runEvents (defineVisitor ctx defaultOptions ES SV nw) events st = Returns st'"
    and c: "offsets st' t = Some info" "expectedIndent info = Some e"
  shows "offsets st t = Some info"
proof -
  let ?P = "\<lambda>s. offsets s t = Some info \<longrightarrow> offsets st t = Some info"
  have "preserved ?P h"
    if k: "key \<in> fst ` set events"
      and v: "defineVisitor ctx defaultOptions ES SV nw key = Some h" for key h
  proof (rule defineVisitor_invariant_at [where P = ?P, OF _ _ _ v])
    have ne: "key \<noteq> ''Program:exit''" using ev k by auto
    show "\<And>nd s. ?P s \<Longrightarrow> ?P (ignore (getSourceCode ctx) nd s)" by simp
    show "\<And>c s. key \<noteq> ''Program:exit'' \<Longrightarrow> ?P s \<Longrightarrow>
            ?P (exec_call (getSourceCode ctx) c s)"
      using exec_call_sets_no_cache c(2) by blast
    show "\<And>opts tokens pc prev s s'. key = ''Program:exit'' \<Longrightarrow> ?P s \<Longrightarrow>
            processLine opts (getSourceCode ctx) tokens pc prev s = Returns s' \<Longrightarrow> ?P s'"
      using ne by simp
  qed
  then have "\<forall>key h. key \<in> fst ` set events \<longrightarrow>
      defineVisitor ctx defaultOptions ES SV nw key = Some h \<longrightarrow> preserved ?P h"
    by blast
  from runEvents_invariant_on [where P = ?P, OF this _ r] c(1) show ?thesis by simp
qed

section \<open>Lemmas on the cached example table\<close>

lemma exLineCached_simps [simp]:
  "exLineCached tIf = Some (Baseline 0 (Some 0))"
  "exLineCached tParen = Some (Relative tIf 1 (Some 0))"
  "exLineCached tBrace = Some (Relative tIf 0 (Some 0))"
  "exLineCached tY = Some (Relative tBrace 1 None)"
  "exLineCached tEq = None"
  "exLineCached tClose = Some (Relative tBrace 0 None)"
  by (simp_all add: exLineCached_def)

lemma ex_line_cached:
  "processLine exOpts exSourceCode [tIf, tParen, tBrace] [] None exState
     = Returns (exState\<lparr> offsets := exLineCached \<rparr>)"
  "processLine exOpts exSourceCode [tY, tEq] [] None (exState\<lparr> offsets := exLineCached \<rparr>)
     = Returns (exState\<lparr> offsets := exLineCached(tY \<mapsto> Relative tBrace 1 (Some 2)) \<rparr>)"
proof -
  show "processLine exOpts exSourceCode [tIf, tParen, tBrace] [] None exState
     = Returns (exState\<lparr> offsets := exLineCached \<rparr>)"
    by (simp add: processLine_def exState_def ex_resolved validateLine_def
        saveExpectedIndent_def saveExpectedIndent1_def exLineCached_def)
  have rY: "getExpectedIndentFromToken exOpts exLineCached tY = Some (Some 2)"
    by (simp add: getExpectedIndentFromToken.simps exOpts_def)
  show "processLine exOpts exSourceCode [tY, tEq] [] None (exState\<lparr> offsets := exLineCached \<rparr>)
     = Returns (exState\<lparr> offsets := exLineCached(tY \<mapsto> Relative tBrace 1 (Some 2)) \<rparr>)"
    by (simp add: processLine_def exState_def rY validateLine_def
        saveExpectedIndent_def saveExpectedIndent1_def)
qed

lemma ex_program_exit_cached:
  "programExit exOpts exSourceCode exIsNotWhitespace exProgram
      \<lparr> offsets = exLineCached, ignoreTokens = {tY, tEq}, reports = [] \<rparr>
     = Returns \<lparr> offsets = exCachedOffsets 0, ignoreTokens = {tY, tEq}, reports = [] \<rparr>"
proof -
  let ?st = "\<lparr> offsets = exLineCached, ignoreTokens = {tY, tEq}, reports = [] \<rparr>"
  let ?st2 = "\<lparr> offsets = exLineCached(tY \<mapsto> Relative tBrace 1 (Some 0)),
                ignoreTokens = {tY, tEq}, reports = [] \<rparr>"
  have r: "getExpectedIndentFromToken exOpts exLineCached tIf = Some (Some 0)"
    by (simp add: getExpectedIndentFromToken.simps)
  have rC: "getExpectedIndentFromToken exOpts
              (exLineCached(tY \<mapsto> Relative tBrace 1 (Some 0))) tClose = Some (Some 0)"
    by (simp add: getExpectedIndentFromToken.simps exOpts_def)
  have vC: "validateToken exOpts exSourceCode tClose 0 = Returns []"
    by (simp add: validateToken_def getIndentText_def exSourceCode_def exLines_def trim_def)
  have l1: "processLine exOpts exSourceCode [tIf, tParen, tBrace] [] None ?st = Returns ?st"
    by (simp add: processLine_def r validateLine_def
        saveExpectedIndent_def saveExpectedIndent1_def)
  have l2: "processLine exOpts exSourceCode [tY, tEq] [] (Some tBrace) ?st = Returns ?st2"
    by (simp add: processLine_def saveExpectedIndent_def saveExpectedIndent1_def)
  have l3: "processLine exOpts exSourceCode [tClose] [] (Some tEq) ?st2
              = Returns \<lparr> offsets = exCachedOffsets 0, ignoreTokens = {tY, tEq}, reports = [] \<rparr>"
    by (simp add: processLine_def rC [unfolded exLineCached_def] validateLine_def vC
        exCachedOffsets_def exLineCached_def
        saveExpectedIndent_def saveExpectedIndent1_def)
  show ?thesis by (simp add: programExit_def ex_groups l1 l2 l3)
qed

lemma ex_star_exit_cached:
  "runEvents (defineVisitor exContext exDefaults exES exSV exIsNotWhitespace)
     [(''*:exit'', exMystery)] \<lparr> offsets = exLineCached, ignoreTokens = {}, reports = [] \<rparr>
   = Returns \<lparr> offsets = exLineCached, ignoreTokens = {tY, tEq}, reports = [] \<rparr>"
  by (simp add: ex_visitor starExit_def exMystery_def ignore_def exSourceCode_def insert_commute)

section \<open>The indent resolver and its cache (claim C1)\<close>

text \<open>
  Claim C1, as amended. \<open>getExpectedIndentFromToken\<close> returns \<open>null\<close> for a token
  without entry, the cached value of an entry that has one, \<open>offset * indentSize\<close> for
  a baseline entry without cached value, and for a relative entry without cached value the
  result for its base token plus \<open>offset * indentSize\<close> (\<open>null\<close> if the base gives
  \<open>null\<close>, no return if the base does not return); given stack for the recursion, it
  returns whenever the chain of base tokens ends. The resolver itself writes nothing.

  A cached value is set by \<open>saveExpectedIndent\<close> only: a token of the list whose entry
  has no cached value gets the value passed in, and every other entry is left as it is.
  An entry with a cached value is kept by \<open>saveExpectedIndent\<close>, by \<open>processLine\<close>
  and by the handler of \<open>Program:exit\<close>.

  \<open>setOffset\<close>, \<open>setOffsetBaseLine\<close> and \<open>copyOffset\<close> set no cached value, and
  neither does a traversal without a \<open>Program:exit\<close> event. The entry that they write
  for a token has none (\<open>copyOffset\<close> copies the offset and the base token, not the
  cached value), so writing the entry of a token again drops its cached value.
\<close>

theorem getExpectedIndentFromToken_behaviour:
  "(offs t = None \<longrightarrow> getExpectedIndentFromToken opts offs t = Some None)
   \<and> (\<forall>info e. offs t = Some info \<and> expectedIndent info = Some e \<longrightarrow>
         getExpectedIndentFromToken opts offs t = Some (Some e))
   \<and> (\<forall>m. offs t = Some (Baseline m None) \<longrightarrow>
         getExpectedIndentFromToken opts offs t = Some (Some (m * indentSize opts)))
   \<and> (\<forall>b m. offs t = Some (Relative b m None) \<longrightarrow>
         getExpectedIndentFromToken opts offs t =
           (case getExpectedIndentFromToken opts offs b of
              None \<Rightarrow> None
            | Some None \<Rightarrow> Some None
            | Some (Some bi) \<Rightarrow> Some (Some (bi + m * indentSize opts))))
   \<and> (chainEnds offs t \<longrightarrow> (\<exists>r. getExpectedIndentFromToken opts offs t = Some r))
   \<and> (\<forall>info e. offs t = Some info \<and> expectedIndent info = Some e \<longrightarrow>
         saveExpectedIndent toks v offs t = Some info)
   \<and> (\<forall>info. t \<in> set toks \<and> offs t = Some info \<and> expectedIndent info = None \<longrightarrow>
         saveExpectedIndent toks v offs t = Some (set_expectedIndent info v))
   \<and> (t \<notin> set toks \<longrightarrow> saveExpectedIndent toks v offs t = offs t)
   \<and> (\<forall>st' info e. processLine opts sc tokens prevComments prevToken st = Returns st'
         \<and> offsets st t = Some info \<and> expectedIndent info = Some e \<longrightarrow>
         offsets st' t = Some info)
   \<and> (\<forall>h st' info e. defineVisitor ctx defaultOptions ES SV nw ''Program:exit'' = Some h
         \<and> h nd st = Returns st'
         \<and> offsets st t = Some info \<and> expectedIndent info = Some e \<longrightarrow>
         offsets st' t = Some info)
   \<and> (\<forall>info e. setOffset tok off b offs t = Some info \<and> expectedIndent info = Some e \<longrightarrow>
         offs t = Some info)
   \<and> (\<forall>info e. setOffsetBaseLine tok off offs t = Some info \<and> expectedIndent info = Some e \<longrightarrow>
         offs t = Some info)
   \<and> (\<forall>info e. copyOffset tok src offs t = Some info \<and> expectedIndent info = Some e \<longrightarrow>
         offs t = Some info)
   \<and> (\<forall>st' info e. (\<forall>ev\<in>set events. fst ev \<noteq> ''Program:exit'')
         \<and> runEvents (defineVisitor ctx defaultOptions ES SV nw) events st = Returns st'
         \<and> offsets st' t = Some info \<and> expectedIndent info = Some e \<longrightarrow>
         offsets st t = Some info)
   \<and> (t \<noteq> b \<longrightarrow> setOffset (One (Some t)) off b offs t = Some (Relative b off None))
   \<and> (Some t \<in> set ts \<and> t \<noteq> b \<longrightarrow>
         setOffset (Many ts) off b offs t = Some (Relative b off None))
   \<and> setOffsetBaseLine (One (Some t)) off offs t = Some (Baseline off None)
   \<and> (Some t \<in> set ts \<longrightarrow> setOffsetBaseLine (Many ts) off offs t = Some (Baseline off None))
   \<and> (\<forall>m e. offs src = Some (Relative b m e) \<and> t \<noteq> b \<longrightarrow>
         copyOffset (One (Some t)) src offs t = Some (Relative b m None))
   \<and> (\<forall>m e. offs src = Some (Baseline m e) \<longrightarrow>
         copyOffset (One (Some t)) src offs t = Some (Baseline m None))
   \<and> (offs t = None \<longrightarrow> saveExpectedIndent toks v offs t = None)"
proof -
  have r1: "offs t = None \<longrightarrow> getExpectedIndentFromToken opts offs t = Some None"
    by (simp add: resolver_no_entry)
  have r2: "\<forall>info e. offs t = Some info \<and> expectedIndent info = Some e \<longrightarrow>
         getExpectedIndentFromToken opts offs t = Some (Some e)"
    by (auto simp: resolver_cached)
  have r3: "\<forall>m. offs t = Some (Baseline m None) \<longrightarrow>
         getExpectedIndentFromToken opts offs t = Some (Some (m * indentSize opts))"
    by (simp add: resolver_baseline)
  have r4: "\<forall>b m. offs t = Some (Relative b m None) \<longrightarrow>
         getExpectedIndentFromToken opts offs t =
           (case getExpectedIndentFromToken opts offs b of
              None \<Rightarrow> None
            | Some None \<Rightarrow> Some None
            | Some (Some bi) \<Rightarrow> Some (Some (bi + m * indentSize opts)))"
    by (auto simp: resolver_relative)
  have r5: "chainEnds offs t \<longrightarrow> (\<exists>r. getExpectedIndentFromToken opts offs t = Some r)"
    by (auto simp: resolver_returns)
  have s1: "\<forall>info e. offs t = Some info \<and> expectedIndent info = Some e \<longrightarrow>
         saveExpectedIndent toks v offs t = Some info"
    by (auto simp: save_cached)
  have s2: "\<forall>info. t \<in> set toks \<and> offs t = Some info \<and> expectedIndent info = None \<longrightarrow>
         saveExpectedIndent toks v offs t = Some (set_expectedIndent info v)"
    by (auto simp: save_fresh)
  have s3: "t \<notin> set toks \<longrightarrow> saveExpectedIndent toks v offs t = offs t"
    by (simp add: save_notin)
  have p1: "\<forall>st' info e. processLine opts sc tokens prevComments prevToken st = Returns st'
         \<and> offsets st t = Some info \<and> expectedIndent info = Some e \<longrightarrow>
         offsets st' t = Some info"
    using processLine_keeps_cache by blast
  have p2: "\<forall>h st' info e. defineVisitor ctx defaultOptions ES SV nw ''Program:exit'' = Some h
         \<and> h nd st = Returns st'
         \<and> offsets st t = Some info \<and> expectedIndent info = Some e \<longrightarrow>
         offsets st' t = Some info"
    using program_exit_keeps_cache by blast
  have w1: "\<forall>info e. setOffset tok off b offs t = Some info \<and> expectedIndent info = Some e \<longrightarrow>
         offs t = Some info"
    using setOffset_sets_no_cache by blast
  have w2: "\<forall>info e. setOffsetBaseLine tok off offs t = Some info \<and> expectedIndent info = Some e \<longrightarrow>
         offs t = Some info"
    using setOffsetBaseLine_sets_no_cache by blast
  have w3: "\<forall>info e. copyOffset tok src offs t = Some info \<and> expectedIndent info = Some e \<longrightarrow>
         offs t = Some info"
    using copyOffset_sets_no_cache by blast
  have w4: "\<forall>st' info e. (\<forall>ev\<in>set events. fst ev \<noteq> ''Program:exit'')
         \<and> runEvents (defineVisitor ctx defaultOptions ES SV nw) events st = Returns st'
         \<and> offsets st' t = Some info \<and> expectedIndent info = Some e \<longrightarrow>
         offsets st t = Some info"
    using visits_set_no_cache by blast
  have d1: "t \<noteq> b \<longrightarrow> setOffset (One (Some t)) off b offs t = Some (Relative b off None)"
    by simp
  have d2: "Some t \<in> set ts \<and> t \<noteq> b \<longrightarrow>
         setOffset (Many ts) off b offs t = Some (Relative b off None)"
    using setOffset_many_writes by blast
  have d3: "setOffsetBaseLine (One (Some t)) off offs t = Some (Baseline off None)"
    by simp
  have d4: "Some t \<in> set ts \<longrightarrow> setOffsetBaseLine (Many ts) off offs t = Some (Baseline off None)"
    using setOffsetBaseLine_many_writes by blast
  have d5: "\<forall>m e. offs src = Some (Relative b m e) \<and> t \<noteq> b \<longrightarrow>
         copyOffset (One (Some t)) src offs t = Some (Relative b m None)"
    by simp
  have d6: "\<forall>m e. offs src = Some (Baseline m e) \<longrightarrow>
         copyOffset (One (Some t)) src offs t = Some (Baseline m None)"
    by simp
  have s4: "offs t = None \<longrightarrow> saveExpectedIndent toks v offs t = None"
    by (simp add: save_none)
  show ?thesis
    by (intro conjI) (fact r1 r2 r3 r4 r5 s1 s2 s3 p1 p2 w1 w2 w3 w4 d1 d2 d3 d4 d5 d6 s4)+
qed

text \<open>
  The theorem at the example table and at the table after the first line is processed:
  the token \<open>=\<close> without entry, the cached entry of the parenthesis, the baseline of
  \<open>if\<close>, the relative entry of \<open>y\<close> (over the brace to \<open>if\<close>), the three cases
  of \<open>saveExpectedIndent\<close>, the cached entry of the parenthesis kept by \<open>processLine\<close>
  on the second line and by the handler of \<open>Program:exit\<close>, cached entries that the
  three other writers and a \<open>*:exit\<close> event leave alone, and the entries without
  cached value that the three writers put in place of cached ones, and the token \<open>=\<close>
  still without entry after \<open>saveExpectedIndent\<close>.
\<close>

theorem getExpectedIndentFromToken_behaviour_witness:
  "exOffsets tEq = None \<and> getExpectedIndentFromToken exOpts exOffsets tEq = Some None
   \<and> getExpectedIndentFromToken exOpts exLineCached tParen = Some (Some 0)
   \<and> getExpectedIndentFromToken exOpts exOffsets tIf = Some (Some 0)
   \<and> getExpectedIndentFromToken exOpts exOffsets tY = Some (Some 2)
   \<and> chainEnds exOffsets tY
   \<and> saveExpectedIndent [tIf, tParen] 9 exLineCached tIf = Some (Baseline 0 (Some 0))
   \<and> saveExpectedIndent [tIf, tParen] 9 exOffsets tParen = Some (Relative tIf 1 (Some 9))
   \<and> saveExpectedIndent [tIf, tParen] 9 exOffsets tY = Some (Relative tBrace 1 None)
   \<and> processLine exOpts exSourceCode [tY, tEq] [] None (exState\<lparr> offsets := exLineCached \<rparr>)
        = Returns (exState\<lparr> offsets := exLineCached(tY \<mapsto> Relative tBrace 1 (Some 2)) \<rparr>)
   \<and> (exLineCached(tY \<mapsto> Relative tBrace 1 (Some 2))) tParen = Some (Relative tIf 1 (Some 0))
   \<and> defineVisitor exContext exDefaults exES exSV exIsNotWhitespace ''Program:exit''
        = Some (programExit exOpts exSourceCode exIsNotWhitespace)
   \<and> programExit exOpts exSourceCode exIsNotWhitespace exProgram
        \<lparr> offsets = exLineCached, ignoreTokens = {tY, tEq}, reports = [] \<rparr>
        = Returns \<lparr> offsets = exCachedOffsets 0, ignoreTokens = {tY, tEq}, reports = [] \<rparr>
   \<and> exCachedOffsets 0 tParen = Some (Relative tIf 1 (Some 0))
   \<and> setOffset (One (Some tParen)) 1 tIf exLineCached tIf = Some (Baseline 0 (Some 0))
   \<and> setOffsetBaseLine (One (Some tIf)) 0 exLineCached tParen = Some (Relative tIf 1 (Some 0))
   \<and> copyOffset (One (Some tClose)) tBrace exLineCached tBrace = Some (Relative tIf 0 (Some 0))
   \<and> runEvents (defineVisitor exContext exDefaults exES exSV exIsNotWhitespace)
        [(''*:exit'', exMystery)] \<lparr> offsets = exLineCached, ignoreTokens = {}, reports = [] \<rparr>
        = Returns \<lparr> offsets = exLineCached, ignoreTokens = {tY, tEq}, reports = [] \<rparr>
   \<and> setOffset (One (Some tParen)) 1 tIf exLineCached tParen = Some (Relative tIf 1 None)
   \<and> setOffset (Many [Some tParen, None, Some tBrace]) 1 tIf exLineCached tBrace
        = Some (Relative tIf 1 None)
   \<and> setOffsetBaseLine (One (Some tIf)) 0 exLineCached tIf = Some (Baseline 0 None)
   \<and> setOffsetBaseLine (Many [None, Some tIf]) 0 exLineCached tIf = Some (Baseline 0 None)
   \<and> copyOffset (One (Some tClose)) tBrace exLineCached tClose = Some (Relative tIf 0 None)
   \<and> copyOffset (One (Some tEq)) tIf exLineCached tEq = Some (Baseline 0 None)
   \<and> saveExpectedIndent [tY, tEq] 0 exOffsets tEq = None"
proof -
  have size: "indentSize exOpts = 2" by (simp add: exOpts_def)
  have hIf: "exOffsets tIf = Some (Baseline 0 None)" by simp
  have hBrace: "exOffsets tBrace = Some (Relative tIf 0 None)" by simp
  have hY: "exOffsets tY = Some (Relative tBrace 1 None)" by simp
  have chIf: "chainEnds exOffsets tIf"
    by (rule chainEnds.baseline [where offs = exOffsets and t = tIf, OF hIf])
  have chBrace: "chainEnds exOffsets tBrace"
    by (rule chainEnds.relative [where offs = exOffsets and t = tBrace, OF hBrace chIf])
  have chY: "chainEnds exOffsets tY"
    by (rule chainEnds.relative [where offs = exOffsets and t = tY, OF hY chBrace])
  have rEq: "getExpectedIndentFromToken exOpts exOffsets tEq = Some None"
    using getExpectedIndentFromToken_behaviour
      [where offs = exOffsets and t = tEq and opts = exOpts,
       THEN conjunct1] by simp
  have rCached: "getExpectedIndentFromToken exOpts exLineCached tParen = Some (Some 0)"
    using getExpectedIndentFromToken_behaviour
      [where offs = exLineCached and t = tParen and opts = exOpts,
       THEN conjunct2, THEN conjunct1] by simp
  have rIf: "getExpectedIndentFromToken exOpts exOffsets tIf = Some (Some 0)"
    using getExpectedIndentFromToken_behaviour
      [where offs = exOffsets and t = tIf and opts = exOpts,
       THEN conjunct2, THEN conjunct2, THEN conjunct1] by simp
  have rBrace: "getExpectedIndentFromToken exOpts exOffsets tBrace = Some (Some 0)"
    using getExpectedIndentFromToken_behaviour
      [where offs = exOffsets and t = tBrace and opts = exOpts,
       THEN conjunct2, THEN conjunct2, THEN conjunct2, THEN conjunct1] rIf by simp
  have rY: "getExpectedIndentFromToken exOpts exOffsets tY = Some (Some 2)"
    using getExpectedIndentFromToken_behaviour
      [where offs = exOffsets and t = tY and opts = exOpts,
       THEN conjunct2, THEN conjunct2, THEN conjunct2, THEN conjunct1] rBrace size by simp
  have rRet: "\<exists>r. getExpectedIndentFromToken exOpts exOffsets tY = Some r"
    using getExpectedIndentFromToken_behaviour
      [where offs = exOffsets and t = tY and opts = exOpts,
       THEN conjunct2, THEN conjunct2, THEN conjunct2, THEN conjunct2, THEN conjunct1] chY by simp
  have sCached: "saveExpectedIndent [tIf, tParen] 9 exLineCached tIf = Some (Baseline 0 (Some 0))"
    using getExpectedIndentFromToken_behaviour
      [where offs = exLineCached and t = tIf and toks = "[tIf, tParen]" and v = 9,
       THEN conjunct2, THEN conjunct2, THEN conjunct2, THEN conjunct2, THEN conjunct2, THEN conjunct1] by simp
  have sParen: "saveExpectedIndent [tIf, tParen] 9 exOffsets tParen = Some (Relative tIf 1 (Some 9))"
    using getExpectedIndentFromToken_behaviour
      [where offs = exOffsets and t = tParen and toks = "[tIf, tParen]" and v = 9,
       THEN conjunct2, THEN conjunct2, THEN conjunct2, THEN conjunct2, THEN conjunct2, THEN conjunct2, THEN conjunct1] by simp
  have sY: "saveExpectedIndent [tIf, tParen] 9 exOffsets tY = Some (Relative tBrace 1 None)"
    using getExpectedIndentFromToken_behaviour
      [where offs = exOffsets and t = tY and toks = "[tIf, tParen]" and v = 9,
       THEN conjunct2, THEN conjunct2, THEN conjunct2, THEN conjunct2, THEN conjunct2, THEN conjunct2, THEN conjunct2, THEN conjunct1] by simp
  have pKeep: "(exLineCached(tY \<mapsto> Relative tBrace 1 (Some 2))) tParen
                 = Some (Relative tIf 1 (Some 0))"
    using getExpectedIndentFromToken_behaviour
      [where t = tParen and opts = exOpts and sc = exSourceCode and tokens = "[tY, tEq]"
         and prevComments = "[]" and prevToken = None
         and st = "exState\<lparr> offsets := exLineCached \<rparr>",
       THEN conjunct2, THEN conjunct2, THEN conjunct2, THEN conjunct2, THEN conjunct2, THEN conjunct2, THEN conjunct2, THEN conjunct2, THEN conjunct1] ex_line_cached(2) by (simp add: exState_def)
  have xKeep: "exCachedOffsets 0 tParen = Some (Relative tIf 1 (Some 0))"
    using getExpectedIndentFromToken_behaviour
      [where t = tParen and ctx = exContext and defaultOptions = exDefaults and ES = exES
         and SV = exSV and nw = exIsNotWhitespace and nd = exProgram
         and st = "\<lparr> offsets = exLineCached, ignoreTokens = {tY, tEq}, reports = [] \<rparr>",
       THEN conjunct2, THEN conjunct2, THEN conjunct2, THEN conjunct2, THEN conjunct2, THEN conjunct2, THEN conjunct2, THEN conjunct2, THEN conjunct2, THEN conjunct1] ex_visitor(3) ex_program_exit_cached by simp
  have w1: "setOffset (One (Some tParen)) 1 tIf exLineCached tIf = Some (Baseline 0 (Some 0))"
    by simp
  have w1': "exLineCached tIf = Some (Baseline 0 (Some 0))"
    using getExpectedIndentFromToken_behaviour
      [where tok = "One (Some tParen)" and off = 1 and b = tIf and offs = exLineCached and t = tIf,
       THEN conjunct2, THEN conjunct2, THEN conjunct2, THEN conjunct2, THEN conjunct2, THEN conjunct2, THEN conjunct2, THEN conjunct2, THEN conjunct2, THEN conjunct2, THEN conjunct1] w1 by simp
  have w2: "setOffsetBaseLine (One (Some tIf)) 0 exLineCached tParen = Some (Relative tIf 1 (Some 0))"
    by simp
  have w2': "exLineCached tParen = Some (Relative tIf 1 (Some 0))"
    using getExpectedIndentFromToken_behaviour
      [where tok = "One (Some tIf)" and off = 0 and offs = exLineCached and t = tParen,
       THEN conjunct2, THEN conjunct2, THEN conjunct2, THEN conjunct2, THEN conjunct2, THEN conjunct2, THEN conjunct2, THEN conjunct2, THEN conjunct2, THEN conjunct2, THEN conjunct2, THEN conjunct1] w2 by simp
  have w3: "copyOffset (One (Some tClose)) tBrace exLineCached tBrace = Some (Relative tIf 0 (Some 0))"
    by simp
  have w3': "exLineCached tBrace = Some (Relative tIf 0 (Some 0))"
    using getExpectedIndentFromToken_behaviour
      [where tok = "One (Some tClose)" and src = tBrace and offs = exLineCached and t = tBrace,
       THEN conjunct2, THEN conjunct2, THEN conjunct2, THEN conjunct2, THEN conjunct2, THEN conjunct2, THEN conjunct2, THEN conjunct2, THEN conjunct2, THEN conjunct2, THEN conjunct2, THEN conjunct2, THEN conjunct1] w3 by simp
  have w4': "offsets \<lparr> offsets = exLineCached, ignoreTokens = {}, reports = [] \<rparr> tIf
               = Some (Baseline 0 (Some 0))"
    using getExpectedIndentFromToken_behaviour
      [where t = tIf and ctx = exContext and defaultOptions = exDefaults and ES = exES
         and SV = exSV and nw = exIsNotWhitespace and events = "[(''*:exit'', exMystery)]"
         and st = "\<lparr> offsets = exLineCached, ignoreTokens = {}, reports = [] \<rparr>",
       THEN conjunct2, THEN conjunct2, THEN conjunct2, THEN conjunct2, THEN conjunct2, THEN conjunct2, THEN conjunct2, THEN conjunct2, THEN conjunct2, THEN conjunct2, THEN conjunct2, THEN conjunct2, THEN conjunct2, THEN conjunct1] ex_star_exit_cached by simp
  have d1: "setOffset (One (Some tParen)) 1 tIf exLineCached tParen = Some (Relative tIf 1 None)"
    using getExpectedIndentFromToken_behaviour
      [where t = tParen and b = tIf and off = 1 and offs = exLineCached,
       THEN conjunct2, THEN conjunct2, THEN conjunct2, THEN conjunct2, THEN conjunct2, THEN conjunct2, THEN conjunct2, THEN conjunct2, THEN conjunct2, THEN conjunct2, THEN conjunct2, THEN conjunct2, THEN conjunct2, THEN conjunct2, THEN conjunct1] by simp
  have d2: "setOffset (Many [Some tParen, None, Some tBrace]) 1 tIf exLineCached tBrace
              = Some (Relative tIf 1 None)"
    using getExpectedIndentFromToken_behaviour
      [where t = tBrace and b = tIf and off = 1 and offs = exLineCached
         and ts = "[Some tParen, None, Some tBrace]",
       THEN conjunct2, THEN conjunct2, THEN conjunct2, THEN conjunct2, THEN conjunct2, THEN conjunct2, THEN conjunct2, THEN conjunct2, THEN conjunct2, THEN conjunct2, THEN conjunct2, THEN conjunct2, THEN conjunct2, THEN conjunct2, THEN conjunct2, THEN conjunct1] by simp
  have d3: "setOffsetBaseLine (One (Some tIf)) 0 exLineCached tIf = Some (Baseline 0 None)"
    using getExpectedIndentFromToken_behaviour
      [where t = tIf and off = 0 and offs = exLineCached,
       THEN conjunct2, THEN conjunct2, THEN conjunct2, THEN conjunct2, THEN conjunct2, THEN conjunct2, THEN conjunct2, THEN conjunct2, THEN conjunct2, THEN conjunct2, THEN conjunct2, THEN conjunct2, THEN conjunct2, THEN conjunct2, THEN conjunct2, THEN conjunct2, THEN conjunct1] .
  have d4: "setOffsetBaseLine (Many [None, Some tIf]) 0 exLineCached tIf = Some (Baseline 0 None)"
    using getExpectedIndentFromToken_behaviour
      [where t = tIf and off = 0 and offs = exLineCached and ts = "[None, Some tIf]",
       THEN conjunct2, THEN conjunct2, THEN conjunct2, THEN conjunct2, THEN conjunct2, THEN conjunct2, THEN conjunct2, THEN conjunct2, THEN conjunct2, THEN conjunct2, THEN conjunct2, THEN conjunct2, THEN conjunct2, THEN conjunct2, THEN conjunct2, THEN conjunct2, THEN conjunct2, THEN conjunct1] by simp
  have d5: "copyOffset (One (Some tClose)) tBrace exLineCached tClose = Some (Relative tIf 0 None)"
    using getExpectedIndentFromToken_behaviour
      [where t = tClose and b = tIf and src = tBrace and offs = exLineCached,
       THEN conjunct2, THEN conjunct2, THEN conjunct2, THEN conjunct2, THEN conjunct2, THEN conjunct2, THEN conjunct2, THEN conjunct2, THEN conjunct2, THEN conjunct2, THEN conjunct2, THEN conjunct2, THEN conjunct2, THEN conjunct2, THEN conjunct2, THEN conjunct2, THEN conjunct2, THEN conjunct2, THEN conjunct1] by simp
  have d6: "copyOffset (One (Some tEq)) tIf exLineCached tEq = Some (Baseline 0 None)"
    using getExpectedIndentFromToken_behaviour
      [where t = tEq and src = tIf and offs = exLineCached,
       THEN conjunct2, THEN conjunct2, THEN conjunct2, THEN conjunct2, THEN conjunct2, THEN conjunct2, THEN conjunct2, THEN conjunct2, THEN conjunct2, THEN conjunct2, THEN conjunct2, THEN conjunct2, THEN conjunct2, THEN conjunct2, THEN conjunct2, THEN conjunct2, THEN conjunct2, THEN conjunct2, THEN conjunct2, THEN conjunct1] by simp
  have sEq: "saveExpectedIndent [tY, tEq] 0 exOffsets tEq = None"
    using getExpectedIndentFromToken_behaviour
      [where offs = exOffsets and t = tEq and toks = "[tY, tEq]" and v = 0,
       THEN conjunct2, THEN conjunct2, THEN conjunct2, THEN conjunct2, THEN conjunct2, THEN conjunct2, THEN conjunct2, THEN conjunct2, THEN conjunct2, THEN conjunct2, THEN conjunct2, THEN conjunct2, THEN conjunct2, THEN conjunct2, THEN conjunct2, THEN conjunct2, THEN conjunct2, THEN conjunct2, THEN conjunct2, THEN conjunct2] by simp
  show ?thesis
    using rEq rCached rIf rY chY sCached sParen sY pKeep xKeep w1 w2 w3 d1 d2 d3 d4 d5 d6 sEq
      ex_line_cached(2) ex_visitor(3) ex_program_exit_cached ex_star_exit_cached
    by simp
qed

text \<open>
  Claim C1 as stated fails: resolving caches nothing, what is cached is not the token's
  own value, and a cached value is computed again after the entry is written again. On
  the first line of the example the parenthesis resolves to \<open>0 + 1 * 2 = 2\<close>;
  \<open>processLine\<close> on that line stores the expected indent of the line, 0, in the entries
  of all three tokens, so the parenthesis resolves to 0 from then on; after
  \<open>setOffset\<close> on the parenthesis its entry has no cached value and it resolves to 2
  again. And on the second line \<open>processLine\<close> resolves \<open>y\<close> through the brace and
  \<open>if\<close>, and leaves the entries of both without cache.
\<close>

theorem getExpectedIndentFromToken_caches_counterexample:
  "getExpectedIndentFromToken exOpts exOffsets tParen = Some (Some 2)
   \<and> processLine exOpts exSourceCode [tIf, tParen, tBrace] [] None exState
       = Returns (exState\<lparr> offsets := exOffsets(tIf \<mapsto> Baseline 0 (Some 0),
                                                   tParen \<mapsto> Relative tIf 1 (Some 0),
                                                   tBrace \<mapsto> Relative tIf 0 (Some 0)) \<rparr>)
   \<and> getExpectedIndentFromToken exOpts
        (exOffsets(tIf \<mapsto> Baseline 0 (Some 0), tParen \<mapsto> Relative tIf 1 (Some 0),
                   tBrace \<mapsto> Relative tIf 0 (Some 0))) tParen
       = Some (Some 0)
   \<and> setOffset (One (Some tParen)) 1 tIf
        (exOffsets(tIf \<mapsto> Baseline 0 (Some 0), tParen \<mapsto> Relative tIf 1 (Some 0),
                   tBrace \<mapsto> Relative tIf 0 (Some 0))) tParen
       = Some (Relative tIf 1 None)
   \<and> getExpectedIndentFromToken exOpts
        (setOffset (One (Some tParen)) 1 tIf
           (exOffsets(tIf \<mapsto> Baseline 0 (Some 0), tParen \<mapsto> Relative tIf 1 (Some 0),
                      tBrace \<mapsto> Relative tIf 0 (Some 0)))) tParen
       = Some (Some 2)
   \<and> processLine exOpts exSourceCode [tY, tEq] [] None exState
       = Returns (exState\<lparr> offsets := exOffsets(tY \<mapsto> Relative tBrace 1 (Some 2)) \<rparr>)
   \<and> (exOffsets(tY \<mapsto> Relative tBrace 1 (Some 2))) tBrace = Some (Relative tIf 0 None)
   \<and> (exOffsets(tY \<mapsto> Relative tBrace 1 (Some 2))) tIf = Some (Baseline 0 None)"
proof -
  have p1: "processLine exOpts exSourceCode [tIf, tParen, tBrace] [] None exState
       = Returns (exState\<lparr> offsets := exOffsets(tIf \<mapsto> Baseline 0 (Some 0),
                                                   tParen \<mapsto> Relative tIf 1 (Some 0),
                                                   tBrace \<mapsto> Relative tIf 0 (Some 0)) \<rparr>)"
    using ex_line_cached(1) by (simp add: exLineCached_def)
  have r2: "getExpectedIndentFromToken exOpts
        (exOffsets(tIf \<mapsto> Baseline 0 (Some 0), tParen \<mapsto> Relative tIf 1 (Some 0),
                   tBrace \<mapsto> Relative tIf 0 (Some 0))) tParen
       = Some (Some 0)"
    by (rule resolver_cached [where info = "Relative tIf 1 (Some 0)"]) simp_all
  have r3: "getExpectedIndentFromToken exOpts
        (setOffset (One (Some tParen)) 1 tIf
           (exOffsets(tIf \<mapsto> Baseline 0 (Some 0), tParen \<mapsto> Relative tIf 1 (Some 0),
                      tBrace \<mapsto> Relative tIf 0 (Some 0)))) tParen
       = Some (Some 2)"
    by (simp add: getExpectedIndentFromToken.simps exOpts_def)
  have p2: "processLine exOpts exSourceCode [tY, tEq] [] None exState
       = Returns (exState\<lparr> offsets := exOffsets(tY \<mapsto> Relative tBrace 1 (Some 2)) \<rparr>)"
    by (simp add: processLine_def exState_def ex_resolved validateLine_def
        saveExpectedIndent_def saveExpectedIndent1_def)
  show ?thesis using ex_resolved(2) p1 r2 r3 p2 by simp
qed

section \<open>Width reports and character reports of \<open>validateToken\<close> (claim C3)\<close>

text \<open>
  Claim C3. A token is validated when the text before it on its line is all whitespace;
  otherwise \<open>validateToken\<close> returns at once, without a report. For a validated token:
  when the column differs from the expected indent,
  exactly one report is made, an \<open>unexpectedIndentation\<close> from column 0 to the token's
  column of its line, whose fix (for a non-negative expected indent) replaces that range
  by the indent character repeated expected-indent times; when the column equals the
  expected indent, the reports are one \<open>unexpectedChar\<close> per position whose character
  is not the indent character, in order, each with a fix that replaces that one position
  by the indent character. Whatever the token, a character report is made only when the
  column equals the expected indent, and one call never makes reports of both kinds.
\<close>

theorem validateToken_width_or_characters:
  "(getIndentText sc (loc_start token) = Returns indentText \<and> trim indentText \<noteq> [] \<longrightarrow>
      validateToken opts sc token expected = Returns [])
   \<and> (getIndentText sc (loc_start token) = Returns indentText \<and> trim indentText = []
      \<and> int (column (loc_start token)) \<noteq> expected \<longrightarrow>
      (\<exists>r. validateToken opts sc token expected = Returns [r]
         \<and> messageId r = unexpectedIndentation
         \<and> rloc_start r = \<lparr> line = line (loc_start token), column = 0 \<rparr>
         \<and> rloc_end r = \<lparr> line = line (loc_start token), column = column (loc_start token) \<rparr>
         \<and> (0 \<le> expected \<longrightarrow> fix_result r = Inr
              \<lparr> edit_range =
                  (getIndexFromLoc sc \<lparr> line = line (loc_start token), column = 0 \<rparr>,
                   getIndexFromLoc sc
                     \<lparr> line = line (loc_start token), column = column (loc_start token) \<rparr>),
                edit_text = replicate (nat expected) (char_of_indent (indentChar opts)) \<rparr>)))
   \<and> (getIndentText sc (loc_start token) = Returns indentText \<and> trim indentText = []
      \<and> int (column (loc_start token)) = expected \<longrightarrow>
      validateToken opts sc token expected =
        Returns (map (\<lambda>i.
            \<lparr> rloc_start = \<lparr> line = line (loc_start token), column = i \<rparr>,
              rloc_end = \<lparr> line = line (loc_start token), column = i + 1 \<rparr>,
              messageId = unexpectedChar,
              data = CharData (char_of_indent (indentChar opts)) (indentText ! i),
              fix_result = Inr
                \<lparr> edit_range =
                    (getIndexFromLoc sc \<lparr> line = line (loc_start token), column = i \<rparr>,
                     getIndexFromLoc sc \<lparr> line = line (loc_start token), column = i + 1 \<rparr>),
                  edit_text = [char_of_indent (indentChar opts)] \<rparr> \<rparr>)
          (filter (\<lambda>i. indentText ! i \<noteq> char_of_indent (indentChar opts))
             [0..<length indentText])))
   \<and> (\<forall>rs. validateToken opts sc token expected = Returns rs \<longrightarrow>
         (\<forall>r\<in>set rs. messageId r = unexpectedChar \<longrightarrow> int (column (loc_start token)) = expected)
         \<and> \<not> ((\<exists>r\<in>set rs. messageId r = unexpectedIndentation)
               \<and> (\<exists>r\<in>set rs. messageId r = unexpectedChar)))"
proof (intro conjI impI allI)
  assume "getIndentText sc (loc_start token) = Returns indentText \<and> trim indentText \<noteq> []"
  then show "validateToken opts sc token expected = Returns []"
    by (simp add: validateToken_def)
next
  assume h: "getIndentText sc (loc_start token) = Returns indentText \<and> trim indentText = []
      \<and> int (column (loc_start token)) \<noteq> expected"
  then have g: "getIndentText sc (loc_start token) = Returns indentText" by simp
  show "\<exists>r. validateToken opts sc token expected = Returns [r]
         \<and> messageId r = unexpectedIndentation
         \<and> rloc_start r = \<lparr> line = line (loc_start token), column = 0 \<rparr>
         \<and> rloc_end r = \<lparr> line = line (loc_start token), column = column (loc_start token) \<rparr>
         \<and> (0 \<le> expected \<longrightarrow> fix_result r = Inr
              \<lparr> edit_range =
                  (getIndexFromLoc sc \<lparr> line = line (loc_start token), column = 0 \<rparr>,
                   getIndexFromLoc sc
                     \<lparr> line = line (loc_start token), column = column (loc_start token) \<rparr>),
                edit_text = replicate (nat expected) (char_of_indent (indentChar opts)) \<rparr>)"
    using h by (simp add: validateToken_cases [OF g] widthReport_def)
next
  assume h: "getIndentText sc (loc_start token) = Returns indentText \<and> trim indentText = []
      \<and> int (column (loc_start token)) = expected"
  then have g: "getIndentText sc (loc_start token) = Returns indentText" by simp
  have c: "charReport opts sc (line (loc_start token)) indentText = (\<lambda>i.
            \<lparr> rloc_start = \<lparr> line = line (loc_start token), column = i \<rparr>,
              rloc_end = \<lparr> line = line (loc_start token), column = i + 1 \<rparr>,
              messageId = unexpectedChar,
              data = CharData (char_of_indent (indentChar opts)) (indentText ! i),
              fix_result = Inr
                \<lparr> edit_range =
                    (getIndexFromLoc sc \<lparr> line = line (loc_start token), column = i \<rparr>,
                     getIndexFromLoc sc \<lparr> line = line (loc_start token), column = i + 1 \<rparr>),
                  edit_text = [char_of_indent (indentChar opts)] \<rparr> \<rparr>)"
    by (rule ext) (simp add: charReport_def)
  show "validateToken opts sc token expected =
        Returns (map (\<lambda>i.
            \<lparr> rloc_start = \<lparr> line = line (loc_start token), column = i \<rparr>,
              rloc_end = \<lparr> line = line (loc_start token), column = i + 1 \<rparr>,
              messageId = unexpectedChar,
              data = CharData (char_of_indent (indentChar opts)) (indentText ! i),
              fix_result = Inr
                \<lparr> edit_range =
                    (getIndexFromLoc sc \<lparr> line = line (loc_start token), column = i \<rparr>,
                     getIndexFromLoc sc \<lparr> line = line (loc_start token), column = i + 1 \<rparr>),
                  edit_text = [char_of_indent (indentChar opts)] \<rparr> \<rparr>)
          (filter (\<lambda>i. indentText ! i \<noteq> char_of_indent (indentChar opts))
             [0..<length indentText]))"
    using h by (simp add: validateToken_cases [OF g] c)
next
  fix rs
  assume "validateToken opts sc token expected = Returns rs"
  then show "\<forall>r\<in>set rs. messageId r = unexpectedChar \<longrightarrow> int (column (loc_start token)) = expected"
    using validateToken_kinds [of opts sc token expected rs] by auto
next
  fix rs
  assume "validateToken opts sc token expected = Returns rs"
  then show "\<not> ((\<exists>r\<in>set rs. messageId r = unexpectedIndentation)
               \<and> (\<exists>r\<in>set rs. messageId r = unexpectedChar))"
    using validateToken_kinds [of opts sc token expected rs] by auto
qed

text \<open>
  The theorem on the token \<open>=\<close> of the example, which has \<open>y\<close> before it on its line
  (no report), on the unindented second line (one width report, fix \<open>(9, 9)\<close> to two
  spaces) and on the tab-indented line (one character report at column 0).
\<close>

theorem validateToken_width_or_characters_witness:
  "getIndentText exSourceCode (loc_start tEq) = Returns ''y ''
   \<and> trim ''y '' \<noteq> []
   \<and> validateToken exOpts exSourceCode tEq 4 = Returns []
   \<and> getIndentText exSourceCode (loc_start tY) = Returns []
   \<and> trim [] = []
   \<and> int (column (loc_start tY)) \<noteq> 2
   \<and> (\<exists>r. validateToken exOpts exSourceCode tY 2 = Returns [r]
         \<and> messageId r = unexpectedIndentation
         \<and> rloc_start r = \<lparr> line = 2, column = 0 \<rparr>
         \<and> rloc_end r = \<lparr> line = 2, column = 0 \<rparr>
         \<and> fix_result r = Inr \<lparr> edit_range = (9, 9), edit_text = ''  '' \<rparr>)
   \<and> getIndentText exTabbed (loc_start tTabbed) = Returns [CHR 0x09, CHR '' '']
   \<and> trim [CHR 0x09, CHR '' ''] = []
   \<and> int (column (loc_start tTabbed)) = 2
   \<and> validateToken exOpts exTabbed tTabbed 2 =
       Returns [\<lparr> rloc_start = \<lparr> line = 2, column = 0 \<rparr>,
                  rloc_end = \<lparr> line = 2, column = 1 \<rparr>,
                  messageId = unexpectedChar,
                  data = CharData CHR '' '' CHR 0x09,
                  fix_result = Inr \<lparr> edit_range = (2, 3), edit_text = '' '' \<rparr> \<rparr>]"
proof -
  have gE: "getIndentText exSourceCode (loc_start tEq) = Returns ''y ''"
    by (simp add: getIndentText_def exSourceCode_def exLines_def)
  have tE: "trim ''y '' \<noteq> []" by (simp add: trim_def isWhitespaceChar_def)
  have s: "validateToken exOpts exSourceCode tEq 4 = Returns []"
    using validateToken_width_or_characters
      [where sc = exSourceCode and token = tEq and indentText = "''y ''" and expected = 4
         and opts = exOpts] gE tE
    by blast
  have gC: "getIndentText exSourceCode (loc_start tY) = Returns []"
    by (simp add: ex_indent_text)
  have gY: "getIndentText exTabbed (loc_start tTabbed) = Returns [CHR 0x09, CHR '' '']"
    by (simp add: ex_indent_text)
  have t0: "trim [] = []" by (simp add: trim_def)
  have tY: "trim [CHR 0x09, CHR '' ''] = []" by (simp add: trim_def isWhitespaceChar_def)
  have cC: "int (column (loc_start tY)) \<noteq> 2" by simp
  have cY: "int (column (loc_start tTabbed)) = 2" by simp
  have up: "[0..<2] = [0, Suc 0]" by (simp add: upt_rec)
  have rp: "\<And>x :: char. replicate 2 x = [x, x]" by (simp add: numeral_2_eq_2)
  have w: "\<exists>r. validateToken exOpts exSourceCode tY 2 = Returns [r]
         \<and> messageId r = unexpectedIndentation
         \<and> rloc_start r = \<lparr> line = 2, column = 0 \<rparr>
         \<and> rloc_end r = \<lparr> line = 2, column = 0 \<rparr>
         \<and> fix_result r = Inr \<lparr> edit_range = (9, 9), edit_text = ''  '' \<rparr>"
    using validateToken_width_or_characters
      [where sc = exSourceCode and token = tY and indentText = "[]" and expected = 2
         and opts = exOpts] gC t0 cC
    by (simp add: ex_index exOpts_def rp)
  have c: "validateToken exOpts exTabbed tTabbed 2 =
       Returns [\<lparr> rloc_start = \<lparr> line = 2, column = 0 \<rparr>,
                  rloc_end = \<lparr> line = 2, column = 1 \<rparr>,
                  messageId = unexpectedChar,
                  data = CharData CHR '' '' CHR 0x09,
                  fix_result = Inr \<lparr> edit_range = (2, 3), edit_text = '' '' \<rparr> \<rparr>]"
    using validateToken_width_or_characters
      [where sc = exTabbed and token = tTabbed and indentText = "[CHR 0x09, CHR '' '']"
         and expected = 2 and opts = exOpts] gY tY cY
    by (simp add: ex_index exOpts_def up)
  show ?thesis using gE tE s gC t0 cC w gY tY cY c by blast
qed

section \<open>Lines with an ignored token (claim C2)\<close>

text \<open>
  Claim C2, as amended. If a token of the line is in the ignore set and every token
  before it in the line is ignored too or resolves to \<open>null\<close> (in particular if the
  first token of the line, the one \<open>processLine\<close> validates, is ignored), then the
  resolution of the line gives \<open>null\<close> and \<open>processLine\<close> returns with the state
  changed in one way only: the column of the first token is saved as expected indent on
  the tokens of the line (no report, no fix, no value from the offset graph). The ignore
  set is not changed by \<open>processLine\<close>, and along a traversal with the handlers of
  \<open>defineVisitor\<close> it only grows: a token once ignored stays ignored.
\<close>

theorem processLine_ignored_token_skips:
  "(t \<in> ignoreTokens st
      \<and> (\<forall>u\<in>set pre. u \<notin> ignoreTokens st \<longrightarrow>
            getExpectedIndentFromToken opts (offsets st) u = Some None) \<longrightarrow>
      getExpectedIndentFromTokens opts (offsets st) (ignoreTokens st) (pre @ t # post) = Some None
      \<and> processLine opts sc (pre @ t # post) prevComments prevToken st =
          Returns (st\<lparr> offsets :=
            saveExpectedIndent (pre @ t # post)
              (int (column (loc_start (hd (pre @ [t]))))) (offsets st) \<rparr>))
   \<and> (\<forall>st'. processLine opts sc tokens prevComments prevToken st = Returns st' \<longrightarrow>
         ignoreTokens st' = ignoreTokens st)
   \<and> (\<forall>final. runEvents (defineVisitor ctx defaultOptions ES SV nw) events st = Returns final
         \<longrightarrow> ignoreTokens st \<subseteq> ignoreTokens final)"
proof (intro conjI impI allI)
  assume h: "t \<in> ignoreTokens st
      \<and> (\<forall>u\<in>set pre. u \<notin> ignoreTokens st \<longrightarrow>
            getExpectedIndentFromToken opts (offsets st) u = Some None)"
  then show r: "getExpectedIndentFromTokens opts (offsets st) (ignoreTokens st) (pre @ t # post) = Some None"
    by (simp add: tokens_stop_at_ignored)
  obtain firstToken rest where c: "pre @ t # post = firstToken # rest"
    by (cases pre) auto
  then have f: "hd (pre @ [t]) = firstToken" by (cases pre) auto
  show "processLine opts sc (pre @ t # post) prevComments prevToken st =
          Returns (st\<lparr> offsets :=
            saveExpectedIndent (pre @ t # post)
              (int (column (loc_start (hd (pre @ [t]))))) (offsets st) \<rparr>)"
    using r unfolding c f by (rule processLine_unresolved)
next
  fix st'
  assume "processLine opts sc tokens prevComments prevToken st = Returns st'"
  then show "ignoreTokens st' = ignoreTokens st" by (rule processLine_ignoreTokens)
next
  fix final
  assume "runEvents (defineVisitor ctx defaultOptions ES SV nw) events st = Returns final"
  then show "ignoreTokens st \<subseteq> ignoreTokens final" by (rule analysis_ignore_grows)
qed

text \<open>
  The theorem on the second line of the example: with its first token ignored, and with
  its second token ignored after a first token without entry; and on the end of the
  traversal of the example with both tokens ignored.
\<close>

theorem processLine_ignored_token_skips_witness:
  "tY \<in> ignoreTokens (exState\<lparr> ignoreTokens := {tY, tEq} \<rparr>)
   \<and> processLine exOpts exSourceCode [tY, tEq] [] (Some tBrace)
         (exState\<lparr> ignoreTokens := {tY, tEq} \<rparr>)
       = Returns \<lparr> offsets = exOffsets(tY \<mapsto> Relative tBrace 1 (Some 0)),
                   ignoreTokens = {tY, tEq}, reports = [] \<rparr>
   \<and> tEq \<in> ignoreTokens exIgnoredLine
   \<and> tY \<notin> ignoreTokens exIgnoredLine
   \<and> getExpectedIndentFromToken exOpts (offsets exIgnoredLine) tY = Some None
   \<and> getExpectedIndentFromTokens exOpts (offsets exIgnoredLine) (ignoreTokens exIgnoredLine)
         [tY, tEq] = Some None
   \<and> processLine exOpts exSourceCode [tY, tEq] [] (Some tBrace) exIgnoredLine
       = Returns exIgnoredLine
   \<and> runEvents (defineVisitor exContext exDefaults exES exSV exIsNotWhitespace)
        [(''Program:exit'', exProgram)]
        \<lparr> offsets = exOffsets, ignoreTokens = {tY, tEq}, reports = [] \<rparr>
       = Returns \<lparr> offsets = exCachedOffsets 0, ignoreTokens = {tY, tEq}, reports = [] \<rparr>
   \<and> ignoreTokens \<lparr> offsets = exOffsets, ignoreTokens = {tY, tEq}, reports = [] \<rparr>
        \<subseteq> ignoreTokens
            \<lparr> offsets = exCachedOffsets 0, ignoreTokens = {tY, tEq}, reports = [] \<rparr>"
proof -
  have run: "runEvents (defineVisitor exContext exDefaults exES exSV exIsNotWhitespace)
        [(''Program:exit'', exProgram)]
        \<lparr> offsets = exOffsets, ignoreTokens = {tY, tEq}, reports = [] \<rparr>
       = Returns \<lparr> offsets = exCachedOffsets 0, ignoreTokens = {tY, tEq}, reports = [] \<rparr>"
    by (simp add: ex_visitor ex_program_exit)
  have grows: "ignoreTokens \<lparr> offsets = exOffsets, ignoreTokens = {tY, tEq}, reports = [] \<rparr>
        \<subseteq> ignoreTokens
            \<lparr> offsets = exCachedOffsets 0, ignoreTokens = {tY, tEq}, reports = [] \<rparr>"
    using processLine_ignored_token_skips
      [where st = "\<lparr> offsets = exOffsets, ignoreTokens = {tY, tEq}, reports = [] \<rparr>"
         and ctx = exContext and defaultOptions = exDefaults and ES = exES and SV = exSV
         and nw = exIsNotWhitespace and events = "[(''Program:exit'', exProgram)]"] run
    by blast
  let ?st = "exState\<lparr> ignoreTokens := {tY, tEq} \<rparr>"
  have h1: "tY \<in> ignoreTokens ?st
      \<and> (\<forall>u\<in>set []. u \<notin> ignoreTokens ?st \<longrightarrow>
            getExpectedIndentFromToken exOpts (offsets ?st) u = Some None)"
    by simp
  have r1: "processLine exOpts exSourceCode [tY, tEq] [] (Some tBrace) ?st
       = Returns \<lparr> offsets = exOffsets(tY \<mapsto> Relative tBrace 1 (Some 0)),
                   ignoreTokens = {tY, tEq}, reports = [] \<rparr>"
    using processLine_ignored_token_skips
      [where t = tY and st = ?st and pre = "[]" and opts = exOpts and post = "[tEq]"
         and sc = exSourceCode and prevComments = "[]" and prevToken = "Some tBrace"] h1
    by (simp add: exState_def saveExpectedIndent_def saveExpectedIndent1_def)
  have n: "getExpectedIndentFromToken exOpts (offsets exIgnoredLine) tY = Some None"
    by (simp add: exIgnoredLine_def resolver_no_entry)
  have h2: "tEq \<in> ignoreTokens exIgnoredLine
      \<and> (\<forall>u\<in>set [tY]. u \<notin> ignoreTokens exIgnoredLine \<longrightarrow>
            getExpectedIndentFromToken exOpts (offsets exIgnoredLine) u = Some None)"
    using n by (simp add: exIgnoredLine_def)
  have r2: "getExpectedIndentFromTokens exOpts (offsets exIgnoredLine) (ignoreTokens exIgnoredLine)
         [tY, tEq] = Some None
       \<and> processLine exOpts exSourceCode [tY, tEq] [] (Some tBrace) exIgnoredLine
           = Returns exIgnoredLine"
    using processLine_ignored_token_skips
      [where t = tEq and st = exIgnoredLine and pre = "[tY]" and opts = exOpts and post = "[]"
         and sc = exSourceCode and prevComments = "[]" and prevToken = "Some tBrace"] h2
    by (simp add: exIgnoredLine_def saveExpectedIndent_def saveExpectedIndent1_def)
  have n': "tY \<notin> ignoreTokens exIgnoredLine" by (simp add: exIgnoredLine_def)
  show ?thesis using h1 r1 h2 r2 n n' run grows by simp
qed

text \<open>
  Claim C2 as stated fails: with the second token of the line ignored and the first
  token resolving (to 2), the line is validated and a wrong-width report is made.
\<close>

theorem ignored_later_token_counterexample:
  "tEq \<in> set [tY, tEq] \<and> tEq \<in> ignoreTokens exIgnoredEq
   \<and> getExpectedIndentFromTokens exOpts (offsets exIgnoredEq) (ignoreTokens exIgnoredEq) [tY, tEq]
       = Some (Some 2)
   \<and> processLine exOpts exSourceCode [tY, tEq] [] (Some tBrace) exIgnoredEq
       = Returns \<lparr> offsets = exOffsets(tY \<mapsto> Relative tBrace 1 (Some 2)),
                   ignoreTokens = {tEq},
                   reports = [\<lparr> rloc_start = \<lparr> line = 2, column = 0 \<rparr>,
                                rloc_end = \<lparr> line = 2, column = 0 \<rparr>,
                                messageId = unexpectedIndentation,
                                data = IndentationData 2 0 ''space'' ''space'' ''s'' ''s'',
                                fix_result =
                                  Inr \<lparr> edit_range = (9, 9), edit_text = ''  '' \<rparr> \<rparr>] \<rparr>"
  by (simp add: exIgnoredEq_def ex_resolved processLine_def validateLine_def ex_width_report
      saveExpectedIndent_def saveExpectedIndent1_def)

section \<open>Lines whose expected indent does not resolve (claim C4)\<close>




section \<open>No entry is relative to its own token (claim C6)\<close>

text \<open>
  Claim C6. The empty offset table has no self-reference; \<open>setOffset\<close> with a null
  token, or with the base token as token (alone or in an array), changes nothing; and
  each of the operations that write the table (\<open>setOffset\<close>, \<open>copyOffset\<close>,
  \<open>setOffsetBaseLine\<close>, \<open>saveExpectedIndent\<close>) keeps the table free of entries whose
  base token is their own key. So the table at the end of any traversal with the handlers
  of \<open>defineVisitor\<close>, started on the empty state, has no such entry.
\<close>

theorem offsets_never_self_relative:
  "noSelfReference Map.empty
   \<and> setOffset (One None) off b offs = offs
   \<and> setOffset (One (Some b)) off b offs = offs
   \<and> setOffset (Many [Some b, None]) off b offs = offs
   \<and> (noSelfReference offs \<longrightarrow>
        noSelfReference (setOffset tok off b offs)
        \<and> noSelfReference (copyOffset tok src offs)
        \<and> noSelfReference (setOffsetBaseLine tok off offs)
        \<and> noSelfReference (saveExpectedIndent toks v offs))
   \<and> (runEvents (defineVisitor ctx defaultOptions ES SV nw) events initialState = Returns final
        \<longrightarrow> noSelfReference (offsets final))"
proof -
  have e: "noSelfReference Map.empty" by (simp add: noSelfReference_def)
  have i: "noSelfReference (offsets initialState)" using e by (simp add: initialState_def)
  have r: "noSelfReference (offsets final)"
    if "runEvents (defineVisitor ctx defaultOptions ES SV nw) events initialState = Returns final"
    using analysis_no_self_reference [OF i that] .
  show ?thesis
    using e r by (simp add: nsr_setOffset nsr_copyOffset nsr_setOffsetBaseLine nsr_save)
qed

text \<open>
  The theorem from the empty table: \<open>setOffset\<close> of an array that contains the base
  token skips it, and \<open>copyOffset\<close> onto the base token of the copied entry skips it;
  and the theorem on the table at the end of the analysis of the example.
\<close>

theorem offsets_never_self_relative_witness:
  "noSelfReference Map.empty
   \<and> noSelfReference (setOffset (Many [Some tIf, None, Some tBrace]) 1 tIf Map.empty)
   \<and> setOffset (Many [Some tIf, None, Some tBrace]) 1 tIf Map.empty tIf = None
   \<and> setOffset (Many [Some tIf, None, Some tBrace]) 1 tIf Map.empty tBrace
       = Some (Relative tIf 1 None)
   \<and> noSelfReference (copyOffset (One (Some tIf)) tBrace [tBrace \<mapsto> Relative tIf 1 None])
   \<and> copyOffset (One (Some tIf)) tBrace [tBrace \<mapsto> Relative tIf 1 None] tIf = None
   \<and> runEvents (defineVisitor exContext exDefaults exES exSV exIsNotWhitespace)
        [(''IfStatement'', exIf), (''*:exit'', exMystery), (''Program:exit'', exProgram)]
        initialState
       = Returns \<lparr> offsets = exCachedOffsets 0, ignoreTokens = {tY, tEq}, reports = [] \<rparr>
   \<and> noSelfReference (exCachedOffsets 0)"
proof -
  have run: "noSelfReference
      (offsets \<lparr> offsets = exCachedOffsets 0, ignoreTokens = {tY, tEq}, reports = [] \<rparr>)"
    using offsets_never_self_relative
      [where ctx = exContext and defaultOptions = exDefaults and ES = exES and SV = exSV
         and nw = exIsNotWhitespace
         and events = "[(''IfStatement'', exIf), (''*:exit'', exMystery),
                        (''Program:exit'', exProgram)]"
         and final = "\<lparr> offsets = exCachedOffsets 0, ignoreTokens = {tY, tEq}, reports = [] \<rparr>"]
      ex_run
    by blast
  have e: "noSelfReference Map.empty"
    using offsets_never_self_relative [of 0 tIf Map.empty "One None" tIf "[]" 0] by blast
  have s: "noSelfReference (setOffset (Many [Some tIf, None, Some tBrace]) 1 tIf Map.empty)"
    using offsets_never_self_relative
      [of 1 tIf Map.empty "Many [Some tIf, None, Some tBrace]" tIf "[]" 0] e by blast
  have g: "setOffset (Many [Some tIf, None, Some tBrace]) 1 tIf Map.empty
             = [tBrace \<mapsto> Relative tIf 1 None]"
    by simp
  have c: "noSelfReference (copyOffset (One (Some tIf)) tBrace [tBrace \<mapsto> Relative tIf 1 None])"
    using offsets_never_self_relative
      [of 1 tIf "[tBrace \<mapsto> Relative tIf 1 None]" "One (Some tIf)" tBrace "[]" 0] s g
    by simp
  show ?thesis using e s c g run ex_run by simp
qed

section \<open>Deferred comments (claim C5)\<close>




section \<open>Ignored nodes (claim C7)\<close>

text \<open>
  Claim C7. \<open>ignore(node)\<close> adds every token of \<open>sourceCode.getTokens(node)\<close> to the
  ignore set and changes nothing else. In a Svelte file, the handler that
  \<open>defineVisitor\<close> registers under \<open>*:exit\<close>, whatever the ignored selectors, does the
  same on every node whose type is a key of neither visitor table, and the tokens of such
  a node are still ignored at the end of any traversal that exits the node. And a line
  whose first token (the token that would be validated) is ignored is processed without a
  report.
\<close>

theorem ignore_adds_node_tokens:
  "ignoreTokens (ignore sc nd st) = ignoreTokens st \<union> set (getTokens sc nd False)
   \<and> offsets (ignore sc nd st) = offsets st
   \<and> reports (ignore sc nd st) = reports st
   \<and> (endsWith (getFilename ctx) ''.svelte''
        \<and> node_type nd \<notin> dom (ES (getSourceCode ctx)
                                  (parseOptions (orDefault (options0 ctx)
                                     \<lparr> u_indent = None, u_switchCase = None,
                                       u_ignoredNodes = None \<rparr>) defaultOptions))
        \<and> node_type nd \<notin> dom (SV (getSourceCode ctx)
                                  (parseOptions (orDefault (options0 ctx)
                                     \<lparr> u_indent = None, u_switchCase = None,
                                       u_ignoredNodes = None \<rparr>) defaultOptions))
      \<longrightarrow> (\<exists>h st'. defineVisitor ctx defaultOptions ES SV nw ''*:exit'' = Some h
             \<and> h nd st = Returns st'
             \<and> ignoreTokens st' = ignoreTokens st \<union> set (getTokens (getSourceCode ctx) nd False)
             \<and> offsets st' = offsets st \<and> reports st' = reports st)
          \<and> (\<forall>before after final.
                runEvents (defineVisitor ctx defaultOptions ES SV nw)
                  (before @ (''*:exit'', nd) # after) st = Returns final \<longrightarrow>
                set (getTokens (getSourceCode ctx) nd False) \<subseteq> ignoreTokens final))
   \<and> (firstToken \<in> ignoreTokens st \<longrightarrow>
        (\<exists>st'. processLine opts sc (firstToken # others) prevComments prevToken st = Returns st'
           \<and> reports st' = reports st \<and> ignoreTokens st' = ignoreTokens st))"
proof (intro conjI impI allI)
  show "ignoreTokens (ignore sc nd st) = ignoreTokens st \<union> set (getTokens sc nd False)"
    by (rule ignoreTokens_ignore)
  show "offsets (ignore sc nd st) = offsets st" "reports (ignore sc nd st) = reports st"
    by simp_all
next
  let ?opts = "parseOptions (orDefault (options0 ctx)
                 \<lparr> u_indent = None, u_switchCase = None, u_ignoredNodes = None \<rparr>) defaultOptions"
  let ?sc = "getSourceCode ctx"
  assume h: "endsWith (getFilename ctx) ''.svelte''
        \<and> node_type nd \<notin> dom (ES ?sc ?opts) \<and> node_type nd \<notin> dom (SV ?sc ?opts)"
  from star_exit_unknown_node
    [where ctx = ctx and nd = nd and ES = ES and SV = SV and defaultOptions = defaultOptions
       and nw = nw] h
  show "\<exists>h st'. defineVisitor ctx defaultOptions ES SV nw ''*:exit'' = Some h
             \<and> h nd st = Returns st'
             \<and> ignoreTokens st' = ignoreTokens st \<union> set (getTokens ?sc nd False)
             \<and> offsets st' = offsets st \<and> reports st' = reports st"
    by blast
next
  let ?opts = "parseOptions (orDefault (options0 ctx)
                 \<lparr> u_indent = None, u_switchCase = None, u_ignoredNodes = None \<rparr>) defaultOptions"
  let ?sc = "getSourceCode ctx"
  fix before after final
  assume h: "endsWith (getFilename ctx) ''.svelte''
        \<and> node_type nd \<notin> dom (ES ?sc ?opts) \<and> node_type nd \<notin> dom (SV ?sc ?opts)"
    and run: "runEvents (defineVisitor ctx defaultOptions ES SV nw)
                (before @ (''*:exit'', nd) # after) st = Returns final"
  from h have h1: "endsWith (getFilename ctx) ''.svelte''"
    and h2: "node_type nd \<notin> dom (ES ?sc ?opts)" and h3: "node_type nd \<notin> dom (SV ?sc ?opts)"
    by blast+
  show "set (getTokens ?sc nd False) \<subseteq> ignoreTokens final"
    by (rule unknown_node_stays_ignored
          [where ctx = ctx and nd = nd and ES = ES and SV = SV
             and defaultOptions = defaultOptions and nw = nw, OF h1 h2 h3 run])
next
  assume "firstToken \<in> ignoreTokens st"
  then have "processLine opts sc (firstToken # others) prevComments prevToken st =
     Returns (st\<lparr> offsets :=
       saveExpectedIndent (firstToken # others) (int (column (loc_start firstToken))) (offsets st) \<rparr>)"
    by (intro processLine_unresolved) simp
  then show "\<exists>st'. processLine opts sc (firstToken # others) prevComments prevToken st = Returns st'
           \<and> reports st' = reports st \<and> ignoreTokens st' = ignoreTokens st"
    by simp
qed

text \<open>
  The theorem on the example: the node of unknown type that spans \<open>y\<close> and \<open>=\<close> is
  ignored on exit, its tokens are ignored at the end of the traversal, which reports
  nothing, and the unindented line of \<open>y\<close> is processed without a report.
\<close>

theorem ignore_adds_node_tokens_witness:
  "ignoreTokens (ignore exSourceCode exMystery exState) = {tY, tEq}
   \<and> endsWith (getFilename exContext) ''.svelte''
   \<and> node_type exMystery \<notin> dom (exES exSourceCode exOpts)
   \<and> node_type exMystery \<notin> dom (exSV exSourceCode exOpts)
   \<and> (\<exists>h st'. defineVisitor exContext exDefaults exES exSV exIsNotWhitespace ''*:exit'' = Some h
         \<and> h exMystery exState = Returns st'
         \<and> ignoreTokens st' = {tY, tEq} \<and> offsets st' = exOffsets \<and> reports st' = [])
   \<and> runEvents (defineVisitor exContext exDefaults exES exSV exIsNotWhitespace)
        ([(''IfStatement'', exIf)] @ (''*:exit'', exMystery) # [(''Program:exit'', exProgram)])
        initialState
       = Returns \<lparr> offsets = exCachedOffsets 0, ignoreTokens = {tY, tEq}, reports = [] \<rparr>
   \<and> set (getTokens exSourceCode exMystery False)
        \<subseteq> ignoreTokens \<lparr> offsets = exCachedOffsets 0, ignoreTokens = {tY, tEq}, reports = [] \<rparr>
   \<and> tY \<in> ignoreTokens (exState\<lparr> ignoreTokens := {tY, tEq} \<rparr>)
   \<and> (\<exists>st'. processLine exOpts exSourceCode [tY, tEq] [] (Some tBrace)
                (exState\<lparr> ignoreTokens := {tY, tEq} \<rparr>) = Returns st'
         \<and> reports st' = [] \<and> ignoreTokens st' = {tY, tEq})"
proof -
  note th = ignore_adds_node_tokens
    [where sc = exSourceCode and nd = exMystery and st = exState and ctx = exContext
       and ES = exES and defaultOptions = exDefaults and SV = exSV and nw = exIsNotWhitespace
       and firstToken = tY and opts = exOpts and others = "[tEq]" and prevComments = "[]"
       and prevToken = "Some tBrace"]
  note th1 = ignore_adds_node_tokens
    [where sc = exSourceCode and nd = exMystery and st = initialState and ctx = exContext
       and ES = exES and defaultOptions = exDefaults and SV = exSV and nw = exIsNotWhitespace
       and firstToken = tY and opts = exOpts and others = "[tEq]" and prevComments = "[]"
       and prevToken = "Some tBrace"]
  note th2 = ignore_adds_node_tokens
    [where sc = exSourceCode and nd = exMystery
       and st = "exState\<lparr> ignoreTokens := {tY, tEq} \<rparr>" and ctx = exContext
       and ES = exES and defaultOptions = exDefaults and SV = exSV and nw = exIsNotWhitespace
       and firstToken = tY and opts = exOpts and others = "[tEq]" and prevComments = "[]"
       and prevToken = "Some tBrace"]
  have toks: "getTokens exSourceCode exMystery False = [tY, tEq]"
    by (simp add: exSourceCode_def exMystery_def)
  have sc: "getSourceCode exContext = exSourceCode" by (simp add: exContext_def)
  have a: "ignoreTokens (ignore exSourceCode exMystery exState) = {tY, tEq}"
    using th toks by (simp add: exState_def insert_commute)
  have u1: "node_type exMystery \<notin> dom (exES exSourceCode exOpts)"
    by (simp add: exES_def exMystery_def)
  have u2: "node_type exMystery \<notin> dom (exSV exSourceCode exOpts)"
    by (simp add: exSV_def)
  have hyp: "endsWith (getFilename exContext) ''.svelte''
        \<and> node_type exMystery \<notin> dom (exES (getSourceCode exContext)
              (parseOptions (orDefault (options0 exContext)
                 \<lparr> u_indent = None, u_switchCase = None, u_ignoredNodes = None \<rparr>) exDefaults))
        \<and> node_type exMystery \<notin> dom (exSV (getSourceCode exContext)
              (parseOptions (orDefault (options0 exContext)
                 \<lparr> u_indent = None, u_switchCase = None, u_ignoredNodes = None \<rparr>) exDefaults))"
    using ex_filenames(2) u1 u2 by (simp add: ex_parsed_options sc)
  have b: "\<exists>h st'. defineVisitor exContext exDefaults exES exSV exIsNotWhitespace ''*:exit'' = Some h
         \<and> h exMystery exState = Returns st'
         \<and> ignoreTokens st' = {tY, tEq} \<and> offsets st' = exOffsets \<and> reports st' = []"
    using th hyp toks by (simp add: sc exState_def insert_commute)
  have run: "runEvents (defineVisitor exContext exDefaults exES exSV exIsNotWhitespace)
        ([(''IfStatement'', exIf)] @ (''*:exit'', exMystery) # [(''Program:exit'', exProgram)])
        initialState
       = Returns \<lparr> offsets = exCachedOffsets 0, ignoreTokens = {tY, tEq}, reports = [] \<rparr>"
    using ex_run by simp
  have kept: "set (getTokens exSourceCode exMystery False)
        \<subseteq> ignoreTokens \<lparr> offsets = exCachedOffsets 0, ignoreTokens = {tY, tEq}, reports = [] \<rparr>"
    using th1 hyp run unfolding sc by blast
  have c0: "tY \<in> ignoreTokens (exState\<lparr> ignoreTokens := {tY, tEq} \<rparr>)" by simp
  have c: "\<exists>st'. processLine exOpts exSourceCode [tY, tEq] [] (Some tBrace)
                (exState\<lparr> ignoreTokens := {tY, tEq} \<rparr>) = Returns st'
         \<and> reports st' = [] \<and> ignoreTokens st' = {tY, tEq}"
    using th2 c0 by (simp add: exState_def)
  show ?thesis using a ex_filenames(2) u1 u2 b run kept c0 c by blast
qed

section \<open>Files that are not Svelte files (claim C9)\<close>

text \<open>
  Claim C9. When the file name does not end with \<open>.svelte\<close>, \<open>defineVisitor\<close> returns
  the empty handler object, whatever the options, the default options, the visitor tables
  and the source are; a traversal then calls no handler and leaves the state as it is: no
  offset, no ignored token, no report.
\<close>

theorem defineVisitor_other_file:
  "\<not> endsWith (getFilename ctx) ''.svelte'' \<longrightarrow>
     defineVisitor ctx defaultOptions ES SV nw = Map.empty
     \<and> runEvents (defineVisitor ctx defaultOptions ES SV nw) events st = Returns st"
proof
  assume h: "\<not> endsWith (getFilename ctx) ''.svelte''"
  then have e: "defineVisitor ctx defaultOptions ES SV nw = Map.empty"
    by (simp add: defineVisitor_def)
  have "runEvents Map.empty events st = Returns st"
    by (induction events) auto
  then show "defineVisitor ctx defaultOptions ES SV nw = Map.empty
     \<and> runEvents (defineVisitor ctx defaultOptions ES SV nw) events st = Returns st"
    using e by simp
qed

text \<open>The theorem for the example source under the name \<open>src/index.ts\<close>.\<close>

theorem defineVisitor_other_file_witness:
  "\<not> endsWith (getFilename exOtherContext) ''.svelte''
   \<and> defineVisitor exOtherContext exDefaults exES exSV exIsNotWhitespace ''Program:exit'' = None
   \<and> runEvents (defineVisitor exOtherContext exDefaults exES exSV exIsNotWhitespace)
        [(''IfStatement'', exIf), (''*:exit'', exMystery), (''Program:exit'', exProgram)]
        initialState
       = Returns \<lparr> offsets = Map.empty, ignoreTokens = {}, reports = [] \<rparr>"
  using ex_filenames(1)
    defineVisitor_other_file
      [of exOtherContext exDefaults exES exSV exIsNotWhitespace
          "[(''IfStatement'', exIf), (''*:exit'', exMystery), (''Program:exit'', exProgram)]"
          initialState]
  by (simp add: initialState_def)

section \<open>\<open>copyOffset\<close> from a token without entry (claim C10)\<close>

text \<open>
  Claim C10. When the source token has no entry in the offset table, \<open>copyOffset\<close>
  returns the table unchanged, so every entry of a target token, with its cached expected
  indent, is as before.
\<close>

theorem copyOffset_without_source_entry:
  "offs srcToken = None \<Longrightarrow> copyOffset tok srcToken offs = offs"
  by (simp add: copyOffset_eq)

text \<open>The theorem at the example table, for an array of targets and for a cached target.\<close>

theorem copyOffset_without_source_entry_witness:
  "exOffsets tEq = None
   \<and> copyOffset (Many [Some tIf, None, Some tY]) tEq exOffsets = exOffsets
   \<and> copyOffset (One (Some tIf)) tEq (exOffsets(tIf \<mapsto> Baseline 0 (Some 6)))
       = exOffsets(tIf \<mapsto> Baseline 0 (Some 6))"
proof -
  have h1: "exOffsets tEq = None" by simp
  have h2: "(exOffsets(tIf \<mapsto> Baseline 0 (Some 6))) tEq = None" by simp
  show ?thesis
    using h1
      copyOffset_without_source_entry
        [where offs = exOffsets and srcToken = tEq and tok = "Many [Some tIf, None, Some tY]",
         OF h1]
      copyOffset_without_source_entry
        [where offs = "exOffsets(tIf \<mapsto> Baseline 0 (Some 6))" and srcToken = tEq
           and tok = "One (Some tIf)", OF h2]
    by simp
qed

end
